theory Spec2Isabelle
  imports Main "HOL-Library.Monad_Syntax"
begin

section \<open>Artwork records\<close>

text \<open>
  Modelled from the spec: the declaration of the type \<open>Artwork\<close> (the module
  \<open>types\<close>) is not among the sources. The spec calls it the artwork record; its
  fields are those of the object that \<open>fetchArtworksPage\<close> builds: a numeric
  identifier, which is the key of the selection map, and six nullable columns
  (\<open>None\<close> is JavaScript's \<open>null\<close>). Numbers are integers here, as the
  identifiers, years and counts of the API are. The field \<open>id\<close> is written
  \<open>id'\<close>, since \<open>id\<close> is the identity function of HOL.
\<close>

record artwork =
  id' :: int
  title :: "string option"
  place_of_origin :: "string option"
  artist_display :: "string option"
  inscriptions :: "string option"
  date_start :: "int option"
  date_end :: "int option"

section \<open>The selection map\<close>

text \<open>
  \<open>SelectionMap = Record<number, Artwork>\<close> is a plain JavaScript object. It is
  modelled by the list of its own properties in the order in which the engine enumerates
  them: keys that are array indices (\<open>0 \<le> k < 2^32 - 1\<close>) first, ascending, then
  every other key in the order of its creation.
\<close>

type_synonym SelectionMap = "(int \<times> artwork) list"

definition is_index :: "int \<Rightarrow> bool" where
  "is_index k \<longleftrightarrow> 0 \<le> k \<and> k < 4294967295"

text \<open>\<open>m[k]\<close>: \<open>None\<close> is \<open>undefined\<close>.\<close>

definition get_prop :: "SelectionMap \<Rightarrow> int \<Rightarrow> artwork option" where
  "get_prop m k = map_of m k"

text \<open>\<open>m[k] = v\<close>: an existing property keeps its place, a new one is created.\<close>

fun set_prop :: "SelectionMap \<Rightarrow> int \<Rightarrow> artwork \<Rightarrow> SelectionMap" where
  "set_prop [] k v = [(k, v)]"
| "set_prop ((k', v') # m) k v =
     (if k' = k then (k, v) # m
      else if is_index k \<and> (is_index k' \<longrightarrow> k < k') then (k, v) # (k', v') # m
      else (k', v') # set_prop m k v)"

text \<open>\<open>delete m[k]\<close>.\<close>

definition delete_prop :: "SelectionMap \<Rightarrow> int \<Rightarrow> SelectionMap" where
  "delete_prop m k = filter (\<lambda>(k', v'). k' \<noteq> k) m"

definition Object_keys :: "SelectionMap \<Rightarrow> int list" where
  "Object_keys m = map fst m"

definition Object_values :: "SelectionMap \<Rightarrow> artwork list" where
  "Object_values m = map snd m"

section \<open>The fetch adapter\<close>

text \<open>
  A property of a raw API record has type \<open>any\<close>: it may be absent (\<open>undefined\<close>),
  \<open>null\<close> or a value. The same holds of the parts of the response that the code
  reads with \<open>||\<close>, \<open>?.\<close> and \<open>??\<close>.
\<close>

datatype 'a jsopt = Undefined | Null | Val 'a

text \<open>\<open>x ?? null\<close> and \<open>x ?? d\<close>.\<close>

fun or_null :: "'a jsopt \<Rightarrow> 'a option" where
  "or_null Undefined = None"
| "or_null Null = None"
| "or_null (Val x) = Some x"

fun or_else :: "'a jsopt \<Rightarrow> 'a \<Rightarrow> 'a" where
  "or_else Undefined d = d"
| "or_else Null d = d"
| "or_else (Val x) d = x"

record raw_artwork =
  raw_id :: int
  raw_title :: "string jsopt"
  raw_place_of_origin :: "string jsopt"
  raw_artist_display :: "string jsopt"
  raw_inscriptions :: "string jsopt"
  raw_date_start :: "int jsopt"
  raw_date_end :: "int jsopt"

text \<open>
  The interface \<open>ArtworkApiResponse\<close>; \<open>total\<close> is written \<open>total'\<close>
  (a name of HOL).
\<close>

record pagination_info =
  total' :: "int jsopt"
  limit :: "int jsopt"
  offset :: "int jsopt"
  total_pages :: "int jsopt"

text \<open>
  What \<open>json.data\<close> holds, if anything: an array, whose elements may be \<open>null\<close>,
  or a value that is not an array, of which the code only tests whether it is truthy.
  The cast of the body to \<open>ArtworkApiResponse\<close> is not checked at run time, so the
  containers may depart from the declared shape; the identifiers, columns and counts
  keep their declared types.
\<close>

datatype data_value = Array "raw_artwork jsopt list" | NotArray bool

record ArtworkApiResponse =
  data :: "data_value jsopt"
  pagination :: "pagination_info jsopt"

text \<open>
  What \<open>fetch\<close> resolves to: the flag \<open>ok\<close> and the outcome of \<open>res.json()\<close>,
  which is \<open>None\<close> when the body is not JSON (the promise is rejected with a
  \<open>SyntaxError\<close>), \<open>Some Null\<close> when the body is the JSON text \<open>null\<close>, and
  \<open>Some (Val j)\<close> for every other body; a body that is a number, a string, a boolean
  or an array reads like an object without \<open>data\<close> and \<open>pagination\<close>.
\<close>

record response =
  ok :: bool
  json :: "ArtworkApiResponse jsopt option"

datatype js_error = Error string | TypeError | SyntaxError

record page_result =
  res_items :: "artwork list"
  res_total :: int
  per_page :: int

text \<open>Decimal rendering of a number in a template literal.\<close>

fun show_nat :: "nat \<Rightarrow> string" where
  "show_nat n =
     (if n < 10 then [''0123456789'' ! n]
      else show_nat (n div 10) @ [''0123456789'' ! (n mod 10)])"

definition show_int :: "int \<Rightarrow> string" where
  "show_int i = (if i < 0 then CHR ''-'' # show_nat (nat (- i)) else show_nat (nat i))"

definition artworks_url :: "int \<Rightarrow> int \<Rightarrow> string" where
  "artworks_url pg lim =
     ''https://api.artic.edu/api/v1/artworks?page='' @ show_int pg @ ''&limit='' @
     show_int lim @
     ''&fields=id,title,place_of_origin,artist_display,inscriptions,date_start,date_end''"

text \<open>The function mapped over \<open>json.data\<close> (anonymous in the source).\<close>

definition to_artwork :: "raw_artwork \<Rightarrow> artwork" where
  "to_artwork d =
     \<lparr>id' = raw_id d,
      title = or_null (raw_title d),
      place_of_origin = or_null (raw_place_of_origin d),
      artist_display = or_null (raw_artist_display d),
      inscriptions = or_null (raw_inscriptions d),
      date_start = or_null (raw_date_start d),
      date_end = or_null (raw_date_end d)\<rparr>"

text \<open>\<open>json.data || []\<close>: an array is truthy, also when it is empty.\<close>

fun or_empty :: "data_value jsopt \<Rightarrow> data_value" where
  "or_empty (Val (Array es)) = Array es"
| "or_empty (Val (NotArray truthy)) = (if truthy then NotArray truthy else Array [])"
| "or_empty Undefined = Array []"
| "or_empty Null = Array []"

text \<open>
  \<open>.map((d) => ...)\<close> over the elements: reading \<open>d.id\<close> of an element that is
  \<open>null\<close> throws a \<open>TypeError\<close>.
\<close>

fun map_records :: "raw_artwork jsopt list \<Rightarrow> js_error + artwork list" where
  "map_records [] = Inr []"
| "map_records (Val d # es) =
     (let a = to_artwork d in
      case map_records es of Inl err \<Rightarrow> Inl err | Inr its \<Rightarrow> Inr (a # its))"
| "map_records (e # es) = Inl TypeError"

text \<open>
  \<open>fetchArtworksPage\<close>, with the network as a parameter: \<open>fetch url\<close> is \<open>None\<close>
  when the request itself fails (\<open>fetch\<close> rejects with a \<open>TypeError\<close>). Reading
  \<open>json.data\<close> of a body that is \<open>null\<close> throws a \<open>TypeError\<close>, and so does
  calling \<open>.map\<close> on a value that is not an array.
\<close>

definition fetchArtworksPage ::
  "(string \<Rightarrow> response option) \<Rightarrow> int \<Rightarrow> int \<Rightarrow> js_error + page_result" where
  "fetchArtworksPage fetch pg lim =
     (let url = artworks_url pg lim in
      case fetch url of
        None \<Rightarrow> Inl TypeError
      | Some res \<Rightarrow>
          if \<not> ok res then Inl (Error ''Failed to fetch artworks'')
          else
            (case json res of
               None \<Rightarrow> Inl SyntaxError
             | Some Undefined \<Rightarrow> Inl TypeError
             | Some Null \<Rightarrow> Inl TypeError
             | Some (Val j) \<Rightarrow>
                 (case or_empty (data j) of
                    NotArray truthy \<Rightarrow> Inl TypeError
                  | Array es \<Rightarrow>
                      (case map_records es of
                         Inl err \<Rightarrow> Inl err
                       | Inr its \<Rightarrow>
                           (let tot = (case or_null (pagination j) of
                                         None \<Rightarrow> 0
                                       | Some p \<Rightarrow> or_else (total' p) 0);
                                pp = (case or_null (pagination j) of
                                        None \<Rightarrow> lim
                                      | Some p \<Rightarrow> or_else (limit p) lim)
                            in Inr \<lparr>res_items = its, res_total = tot, per_page = pp\<rparr>)))))"

section \<open>Selection operations of the table\<close>

text \<open>
  Each handler passes a function of the previous map to \<open>setSelectedMap\<close>. The
  definitions with the suffix \<open>_next\<close> are these functions, with the rows of the
  current page as the parameter \<open>its\<close>.
\<close>

definition toggleRow_next :: "artwork \<Rightarrow> bool \<Rightarrow> SelectionMap \<Rightarrow> SelectionMap" where
  "toggleRow_next row checked prev =
     (let copy = prev in
      if checked then set_prop copy (id' row) row else delete_prop copy (id' row))"

text \<open>
  The body of the loop \<open>for (const id of pageIds)\<close> of \<open>onSelectionChange\<close>,
  then the loop: \<open>prev\<close> is read, \<open>next\<close> is written.
\<close>

definition reconcile_step ::
  "artwork list \<Rightarrow> int set \<Rightarrow> SelectionMap \<Rightarrow> int \<Rightarrow> SelectionMap \<Rightarrow> SelectionMap" where
  "reconcile_step its newIds prev i next =
     (let found = i \<in> newIds;
          existed = (get_prop prev i \<noteq> None)
      in if found \<and> \<not> existed then
           (case find (\<lambda>it. id' it = i) its of
              Some row \<Rightarrow> set_prop next i row
            | None \<Rightarrow> next)
         else if \<not> found \<and> existed then delete_prop next i
         else next)"

fun reconcile ::
  "artwork list \<Rightarrow> int set \<Rightarrow> SelectionMap \<Rightarrow> int list \<Rightarrow> SelectionMap \<Rightarrow> SelectionMap" where
  "reconcile its newIds prev [] next = next"
| "reconcile its newIds prev (i # pageIds) next =
     reconcile its newIds prev pageIds (reconcile_step its newIds prev i next)"

text \<open>The event's \<open>value\<close> may be missing (\<open>e.value ?? []\<close>).\<close>

definition onSelectionChange_next ::
  "artwork list \<Rightarrow> artwork list option \<Rightarrow> SelectionMap \<Rightarrow> SelectionMap" where
  "onSelectionChange_next its val prev =
     (let newSelection = (case val of Some v \<Rightarrow> v | None \<Rightarrow> []);
          newIds = set (map id' newSelection);
          pageIds = map id' its
      in reconcile its newIds prev pageIds prev)"

definition onSelectAllPage_next :: "artwork list \<Rightarrow> SelectionMap \<Rightarrow> SelectionMap" where
  "onSelectAllPage_next its prev = fold (\<lambda>row next. set_prop next (id' row) row) its prev"

definition onDeselectAllPage_next :: "artwork list \<Rightarrow> SelectionMap \<Rightarrow> SelectionMap" where
  "onDeselectAllPage_next its prev = fold (\<lambda>row next. delete_prop next (id' row)) its prev"

definition removeFromSelection_next :: "int \<Rightarrow> SelectionMap \<Rightarrow> SelectionMap" where
  "removeFromSelection_next k prev = delete_prop prev k"

section \<open>The table component\<close>

text \<open>
  One run of the fetch effect: its flag \<open>mounted\<close>, whether its promise has settled,
  and what its closure captured (\<open>page\<close>, \<open>rowsPerPage\<close>, \<open>selectedMap\<close>).
\<close>

record fetch_task =
  mounted :: bool
  settled :: bool
  req_page :: int
  req_limit :: int
  closure_map :: SelectionMap

text \<open>
  The state of \<open>ArtworksTable\<close>: the eight \<open>useState\<close> cells, then what the
  component touches outside React: the console and the effect runs started so far.
\<close>

record table_state =
  page :: int
  rowsPerPage :: int
  loading :: bool
  items :: "artwork list"
  totalRecords :: int
  selectedMap :: SelectionMap
  visibleSidebar :: bool
  pageSelection :: "artwork list option"
  console :: "js_error list"
  tasks :: "fetch_task list"

definition initial_state :: table_state where
  "initial_state =
     \<lparr>page = 1, rowsPerPage = 10, loading = False, items = [], totalRecords = 0,
      selectedMap = [], visibleSidebar = False, pageSelection = None,
      console = [], tasks = []\<rparr>"

subsection \<open>The fetch effect\<close>

text \<open>
  The effect body: the cleanup of the previous run clears its flag, then a new run
  starts with \<open>mounted = true\<close>.
\<close>

definition run_fetch_effect :: "table_state \<Rightarrow> table_state" where
  "run_fetch_effect st =
     st\<lparr>loading := True,
        tasks := map (\<lambda>t. t\<lparr>mounted := False\<rparr>) (tasks st) @
                 [\<lparr>mounted = True, settled = False, req_page = page st,
                   req_limit = rowsPerPage st, closure_map = selectedMap st\<rparr>]\<rparr>"

definition then_handler :: "fetch_task \<Rightarrow> page_result \<Rightarrow> table_state \<Rightarrow> table_state" where
  "then_handler t r st =
     (if \<not> mounted t then st
      else
        (let sel = filter (\<lambda>it. get_prop (closure_map t) (id' it) \<noteq> None) (res_items r)
         in st\<lparr>items := res_items r,
               totalRecords := res_total r,
               pageSelection := (if length sel \<noteq> 0 then Some sel else None)\<rparr>))"

definition catch_handler :: "js_error \<Rightarrow> table_state \<Rightarrow> table_state" where
  "catch_handler err st =
     st\<lparr>console := console st @ [err],
        items := [],
        totalRecords := 0,
        pageSelection := None\<rparr>"

definition finally_handler :: "fetch_task \<Rightarrow> table_state \<Rightarrow> table_state" where
  "finally_handler t st = (if mounted t then st\<lparr>loading := False\<rparr> else st)"

text \<open>
  The promise of effect run \<open>n\<close> settles, with \<open>fetch\<close> the network's answer:
  \<open>.then\<close>, \<open>.catch\<close>, \<open>.finally\<close>.
\<close>

definition settle :: "(string \<Rightarrow> response option) \<Rightarrow> nat \<Rightarrow> table_state \<Rightarrow> table_state" where
  "settle fetch n st =
     (if n < length (tasks st) \<and> \<not> settled (tasks st ! n) then
        (let t = tasks st ! n;
             st1 = (case fetchArtworksPage fetch (req_page t) (req_limit t) of
                      Inr r \<Rightarrow> then_handler t r st
                    | Inl err \<Rightarrow> catch_handler err st);
             st2 = finally_handler t st1
         in st2\<lparr>tasks := (tasks st2)[n := t\<lparr>settled := True\<rparr>]\<rparr>)
      else st)"

subsection \<open>Event handlers\<close>

definition toggleRow :: "artwork \<Rightarrow> bool \<Rightarrow> table_state \<Rightarrow> table_state" where
  "toggleRow row checked st = st\<lparr>selectedMap := toggleRow_next row checked (selectedMap st)\<rparr>"

definition onSelectionChange :: "artwork list option \<Rightarrow> table_state \<Rightarrow> table_state" where
  "onSelectionChange val st =
     (let newSelection = (case val of Some v \<Rightarrow> v | None \<Rightarrow> [])
      in st\<lparr>selectedMap := onSelectionChange_next (items st) val (selectedMap st),
            pageSelection := (if length newSelection \<noteq> 0 then Some newSelection else None)\<rparr>)"

definition onSelectAllPage :: "table_state \<Rightarrow> table_state" where
  "onSelectAllPage st =
     st\<lparr>selectedMap := onSelectAllPage_next (items st) (selectedMap st),
        pageSelection := (if length (items st) \<noteq> 0 then Some (items st) else None)\<rparr>"

definition onDeselectAllPage :: "table_state \<Rightarrow> table_state" where
  "onDeselectAllPage st =
     st\<lparr>selectedMap := onDeselectAllPage_next (items st) (selectedMap st),
        pageSelection := None\<rparr>"

definition removeFromSelection :: "int \<Rightarrow> table_state \<Rightarrow> table_state" where
  "removeFromSelection k st = st\<lparr>selectedMap := removeFromSelection_next k (selectedMap st)\<rparr>"

text \<open>The paginator's \<open>onPageChange\<close> and the rows-per-page input.\<close>

definition onPageChange :: "int option \<Rightarrow> table_state \<Rightarrow> table_state" where
  "onPageChange e_page st =
     (let newPage = (case e_page of Some p \<Rightarrow> p | None \<Rightarrow> 0) + 1 in st\<lparr>page := newPage\<rparr>)"

definition onValueChange :: "int option \<Rightarrow> table_state \<Rightarrow> table_state" where
  "onValueChange e_value st =
     (let val = (case e_value of Some v \<Rightarrow> v | None \<Rightarrow> 10)
      in st\<lparr>rowsPerPage := val, page := 1\<rparr>)"

text \<open>
  User events and promise settlements. After a handler React renders again and runs
  the fetch effect when one of its dependencies \<open>page\<close>, \<open>rowsPerPage\<close>,
  \<open>selectedMap\<close> has changed; every selection handler stores a fresh object, so the
  effect runs after each of them.
\<close>

datatype event =
    PageChange "int option"
  | RowsChange "int option"
  | SelectionChange "artwork list option"
  | SelectAllPage
  | DeselectAllPage
  | Remove int
  | Toggle artwork bool
  | Settle "string \<Rightarrow> response option" nat

definition rerun_if_changed :: "table_state \<Rightarrow> table_state \<Rightarrow> table_state" where
  "rerun_if_changed old new =
     (if page new \<noteq> page old \<or> rowsPerPage new \<noteq> rowsPerPage old
      then run_fetch_effect new else new)"

fun step :: "table_state \<Rightarrow> event \<Rightarrow> table_state" where
  "step st (PageChange p) = rerun_if_changed st (onPageChange p st)"
| "step st (RowsChange v) = rerun_if_changed st (onValueChange v st)"
| "step st (SelectionChange val) = run_fetch_effect (onSelectionChange val st)"
| "step st SelectAllPage = run_fetch_effect (onSelectAllPage st)"
| "step st DeselectAllPage = run_fetch_effect (onDeselectAllPage st)"
| "step st (Remove k) = run_fetch_effect (removeFromSelection k st)"
| "step st (Toggle row checked) = run_fetch_effect (toggleRow row checked st)"
| "step st (Settle fetch n) = settle fetch n st"

text \<open>The component after its first render: the fetch effect has run once.\<close>

definition mounted_state :: table_state where
  "mounted_state = run_fetch_effect initial_state"

subsection \<open>The storage effects and the first render\<close>

definition STORAGE_KEY :: string where
  "STORAGE_KEY = ''selected_artworks_map_v1''"

text \<open>
  Around the component: \<open>localStorage\<close>, and the calls \<open>setSelectedMap(parsed)\<close>
  that effects have made and React has not applied yet. \<open>JSON.parse\<close> and
  \<open>JSON.stringify\<close> belong to the engine and are parameters of the effects;
  \<open>JSON_parse raw\<close> is \<open>None\<close> when \<open>JSON.parse\<close> throws.
\<close>

record browser =
  component :: table_state
  localStorage :: "string \<rightharpoonup> string"
  updates :: "SelectionMap list"

text \<open>
  The effect that loads the persisted selection (dependencies \<open>[]\<close>): the empty
  string is falsy, and an exception of \<open>JSON.parse\<close> is ignored.
\<close>

definition load_effect :: "(string \<Rightarrow> SelectionMap option) \<Rightarrow> browser \<Rightarrow> browser" where
  "load_effect JSON_parse b =
     (case localStorage b STORAGE_KEY of
        None \<Rightarrow> b
      | Some raw \<Rightarrow>
          if raw = [] then b
          else
            (case JSON_parse raw of
               Some parsed \<Rightarrow> b\<lparr>updates := updates b @ [parsed]\<rparr>
             | None \<Rightarrow> b))"

text \<open>The effect that persists \<open>selectedMap\<close>, as the render that scheduled it saw it.\<close>

definition persist_effect :: "(SelectionMap \<Rightarrow> string) \<Rightarrow> browser \<Rightarrow> browser" where
  "persist_effect JSON_stringify b =
     b\<lparr>localStorage :=
         (localStorage b)(STORAGE_KEY \<mapsto> JSON_stringify (selectedMap (component b)))\<rparr>"

definition fetch_effect :: "browser \<Rightarrow> browser" where
  "fetch_effect b = b\<lparr>component := run_fetch_effect (component b)\<rparr>"

text \<open>The three effects of a render, in the order of the source.\<close>

definition mount_effects ::
  "(string \<Rightarrow> SelectionMap option) \<Rightarrow> (SelectionMap \<Rightarrow> string) \<Rightarrow> browser \<Rightarrow> browser" where
  "mount_effects JSON_parse JSON_stringify b =
     fetch_effect (persist_effect JSON_stringify (load_effect JSON_parse b))"

text \<open>
  React applies the pending updates, the last one winning, and renders again; the
  parsed map is a new object, so the effects that depend on \<open>selectedMap\<close> run.
\<close>

definition apply_updates :: "(SelectionMap \<Rightarrow> string) \<Rightarrow> browser \<Rightarrow> browser" where
  "apply_updates JSON_stringify b =
     (if updates b = [] then b
      else
        fetch_effect
          (persist_effect JSON_stringify
             (b\<lparr>component := (component b)\<lparr>selectedMap := last (updates b)\<rparr>,
                updates := []\<rparr>)))"

definition first_render :: "(string \<rightharpoonup> string) \<Rightarrow> browser" where
  "first_render storage = \<lparr>component = initial_state, localStorage = storage, updates = []\<rparr>"

text \<open>
  Mounting the component: the effects of the first render run once. Inside
  \<open>React.StrictMode\<close>, where \<open>main.tsx\<close> puts the application, a development
  build runs them a second time, for the same render, before any update is applied.
\<close>

definition mount ::
  "(string \<Rightarrow> SelectionMap option) \<Rightarrow> (SelectionMap \<Rightarrow> string) \<Rightarrow> (string \<rightharpoonup> string) \<Rightarrow> browser" where
  "mount JSON_parse JSON_stringify storage =
     apply_updates JSON_stringify
       (mount_effects JSON_parse JSON_stringify (first_render storage))"

definition strict_mount ::
  "(string \<Rightarrow> SelectionMap option) \<Rightarrow> (SelectionMap \<Rightarrow> string) \<Rightarrow> (string \<rightharpoonup> string) \<Rightarrow> browser" where
  "strict_mount JSON_parse JSON_stringify storage =
     apply_updates JSON_stringify
       (mount_effects JSON_parse JSON_stringify
          (mount_effects JSON_parse JSON_stringify (first_render storage)))"

subsection \<open>What is rendered\<close>

text \<open>The rows that the DataTable shows as checked (\<open>useMemo\<close>).\<close>

definition dtSelection :: "table_state \<Rightarrow> artwork list" where
  "dtSelection st = filter (\<lambda>it. get_prop (selectedMap st) (id' it) \<noteq> None) (items st)"

record selected_item =
  item_key :: int
  selected_title :: string
  selected_sub :: string
  remove_click :: int

record view =
  button_label :: string
  heading :: string
  no_items_selected :: bool
  selected_items :: "selected_item list"

definition render_item :: "artwork \<Rightarrow> selected_item" where
  "render_item a =
     \<lparr>item_key = id' a,
      selected_title = (case title a of Some t \<Rightarrow> t | None \<Rightarrow> ''(untitled)''),
      selected_sub = (case artist_display a of
                        Some s \<Rightarrow> s
                      | None \<Rightarrow> (case place_of_origin a of Some p \<Rightarrow> p | None \<Rightarrow> [])),
      remove_click = id' a\<rparr>"

definition render :: "table_state \<Rightarrow> view" where
  "render st =
     \<lparr>button_label = ''Selected: '' @ show_int (int (length (Object_keys (selectedMap st)))),
      heading = ''Selected Artworks ('' @
                show_int (int (length (Object_keys (selectedMap st)))) @ '')'',
      no_items_selected = (length (Object_keys (selectedMap st)) = 0),
      selected_items = map render_item (Object_values (selectedMap st))\<rparr>"

section \<open>Notions used in the statements\<close>

text \<open>The entries of a selection map whose key is not in \<open>ks\<close>, in their order.\<close>

definition kept :: "int set \<Rightarrow> SelectionMap \<Rightarrow> SelectionMap" where
  "kept ks m = filter (\<lambda>(k, v). k \<notin> ks) m"

text \<open>Every entry is stored under the identifier of its own record.\<close>

definition keyed :: "SelectionMap \<Rightarrow> bool" where
  "keyed m \<longleftrightarrow> (\<forall>(k, a) \<in> set m. id' a = k)"

text \<open>The state after a sequence of events, from the first render on.\<close>

definition run :: "event list \<Rightarrow> table_state" where
  "run es = foldl step mounted_state es"

text \<open>The rows of a page selection; \<open>null\<close> has none.\<close>

definition shown :: "artwork list option \<Rightarrow> artwork set" where
  "shown sel = (case sel of None \<Rightarrow> {} | Some xs \<Rightarrow> set xs)"

text \<open>
  The effect run whose flag is still set has captured the selection map of the current
  state.
\<close>

definition closures_current :: "table_state \<Rightarrow> bool" where
  "closures_current st \<longleftrightarrow> (\<forall>t \<in> set (tasks st). mounted t \<longrightarrow> closure_map t = selectedMap st)"

text \<open>
  The order of the own properties of an object: no key twice, array indices ascending
  and before every other key.
\<close>

definition js_ordered :: "int \<Rightarrow> int \<Rightarrow> bool" where
  "js_ordered k k' \<longleftrightarrow> k \<noteq> k' \<and> (is_index k' \<longrightarrow> is_index k \<and> k < k')"

definition js_object :: "SelectionMap \<Rightarrow> bool" where
  "js_object m \<longleftrightarrow> sorted_wrt js_ordered (map fst m)"

text \<open>The selection map of a state is an object keyed by the identifiers of its records.\<close>

definition well_formed :: "table_state \<Rightarrow> bool" where
  "well_formed st \<longleftrightarrow> js_object (selectedMap st) \<and> keyed (selectedMap st)"

text \<open>
  Every read of the body succeeds: \<open>data\<close> is absent, \<open>null\<close>, falsy or an array
  without a \<open>null\<close> element. The bodies of the declared shape are of this kind.
\<close>

definition readable :: "ArtworkApiResponse \<Rightarrow> bool" where
  "readable j =
     (case data j of
        Val (Array es) \<Rightarrow> list_all (\<lambda>e. case e of Val d \<Rightarrow> True | _ \<Rightarrow> False) es
      | Val (NotArray truthy) \<Rightarrow> \<not> truthy
      | _ \<Rightarrow> True)"

text \<open>Reading a decimal numeral.\<close>

definition read_nat :: "string \<Rightarrow> nat" where
  "read_nat cs = foldl (\<lambda>a c. 10 * a + (of_char c - 48)) 0 cs"

section \<open>Example data\<close>

definition sunday :: artwork where
  "sunday = \<lparr>id' = 27992, title = Some ''A Sunday on La Grande Jatte'',
     place_of_origin = Some ''France'', artist_display = Some ''Georges Seurat'',
     inscriptions = None, date_start = Some 1884, date_end = Some 1886\<rparr>"

definition nighthawks :: artwork where
  "nighthawks = \<lparr>id' = 111628, title = Some ''Nighthawks'',
     place_of_origin = Some ''United States'', artist_display = Some ''Edward Hopper'',
     inscriptions = None, date_start = Some 1942, date_end = Some 1942\<rparr>"

definition bedroom :: artwork where
  "bedroom = \<lparr>id' = 28560, title = Some ''The Bedroom'',
     place_of_origin = None, artist_display = None,
     inscriptions = None, date_start = Some 1889, date_end = Some 1889\<rparr>"

definition raw_sunday :: raw_artwork where
  "raw_sunday = \<lparr>raw_id = 27992, raw_title = Val ''A Sunday on La Grande Jatte'',
     raw_place_of_origin = Val ''France'', raw_artist_display = Val ''Georges Seurat'',
     raw_inscriptions = Null, raw_date_start = Val 1884, raw_date_end = Val 1886\<rparr>"

definition raw_nighthawks :: raw_artwork where
  "raw_nighthawks = \<lparr>raw_id = 111628, raw_title = Val ''Nighthawks'',
     raw_place_of_origin = Val ''United States'', raw_artist_display = Val ''Edward Hopper'',
     raw_inscriptions = Undefined, raw_date_start = Val 1942, raw_date_end = Val 1942\<rparr>"

text \<open>A server that answers every request with the same two records.\<close>

definition two_records_body :: ArtworkApiResponse where
  "two_records_body =
     \<lparr>data = Val (Array [Val raw_sunday, Val raw_nighthawks]),
      pagination = Val \<lparr>total' = Val 2, limit = Val 10, offset = Val 0,
                         total_pages = Val 1\<rparr>\<rparr>"

definition two_records_response :: response where
  "two_records_response = \<lparr>ok = True, json = Some (Val two_records_body)\<rparr>"

definition two_records :: "string \<Rightarrow> response option" where
  "two_records url = Some two_records_response"

definition two_rows :: table_state where
  "two_rows = initial_state\<lparr>items := [sunday, nighthawks], totalRecords := 2,
                 selectedMap := [(27992, sunday), (28560, bedroom)]\<rparr>"

definition two_records_result :: page_result where
  "two_records_result = \<lparr>res_items = [sunday, nighthawks], res_total = 2, per_page = 10\<rparr>"

definition select_sunday :: "event list" where
  "select_sunday = [Settle two_records 0, SelectionChange (Some [sunday])]"

text \<open>
  Other answers: an ok response whose body is not JSON, one whose body is \<open>null\<close>,
  one whose second element of \<open>data\<close> is \<open>null\<close>, one whose \<open>data\<close> is an
  object, a response that is not ok, and no response at all.
\<close>

definition html_body :: response where
  "html_body = \<lparr>ok = True, json = None\<rparr>"

definition gateway :: "string \<Rightarrow> response option" where
  "gateway url = Some html_body"

definition null_body :: response where
  "null_body = \<lparr>ok = True, json = Some Null\<rparr>"

definition null_element_body :: ArtworkApiResponse where
  "null_element_body = \<lparr>data = Val (Array [Val raw_sunday, Null]), pagination = Undefined\<rparr>"

definition object_data_body :: ArtworkApiResponse where
  "object_data_body = \<lparr>data = Val (NotArray True), pagination = Undefined\<rparr>"

definition answer :: "response \<Rightarrow> string \<Rightarrow> response option" where
  "answer res url = Some res"

definition server_error_response :: response where
  "server_error_response = \<lparr>ok = False, json = None\<rparr>"

definition server_error :: "string \<Rightarrow> response option" where
  "server_error url = Some server_error_response"

definition offline :: "string \<Rightarrow> response option" where
  "offline url = None"

definition open_page_two :: "event list" where
  "open_page_two =
     [PageChange (Some 1), Settle two_records 1, SelectionChange (Some [sunday]),
      Settle two_records 2]"

definition load_then_next :: "event list" where
  "load_then_next = [Settle two_records 0, PageChange (Some 1)]"

subsection \<open>An engine for the examples\<close>

text \<open>
  \<open>JSON.stringify\<close> of a selection map, as documented: the properties in their
  order, no white space, strings quoted and escaped. The parser reads the texts that
  this function writes; \<open>JSON.parse\<close> accepts more.
\<close>

definition escape :: "char \<Rightarrow> string" where
  "escape c =
     (if c = CHR 0x22 then [CHR 0x5C, CHR 0x22]
      else if c = CHR 0x5C then [CHR 0x5C, CHR 0x5C]
      else if c = CHR 0x08 then [CHR 0x5C, CHR ''b'']
      else if c = CHR 0x0C then [CHR 0x5C, CHR ''f'']
      else if c = CHR 0x0A then [CHR 0x5C, CHR ''n'']
      else if c = CHR 0x0D then [CHR 0x5C, CHR ''r'']
      else if c = CHR 0x09 then [CHR 0x5C, CHR ''t'']
      else if (of_char c :: nat) < 32 then
        [CHR 0x5C, CHR ''u'', CHR ''0'', CHR ''0'',
         ''0123456789abcdef'' ! (of_char c div 16), ''0123456789abcdef'' ! (of_char c mod 16)]
      else [c])"

definition quote :: "string \<Rightarrow> string" where
  "quote s = CHR 0x22 # concat (map escape s) @ [CHR 0x22]"

definition nullable :: "('a \<Rightarrow> string) \<Rightarrow> 'a option \<Rightarrow> string" where
  "nullable f x = (case x of None \<Rightarrow> ''null'' | Some v \<Rightarrow> f v)"

definition artwork_text :: "artwork \<Rightarrow> string" where
  "artwork_text a =
     ''{'' @ quote ''id'' @ '':'' @ show_int (id' a) @
     '','' @ quote ''title'' @ '':'' @ nullable quote (title a) @
     '','' @ quote ''place_of_origin'' @ '':'' @ nullable quote (place_of_origin a) @
     '','' @ quote ''artist_display'' @ '':'' @ nullable quote (artist_display a) @
     '','' @ quote ''inscriptions'' @ '':'' @ nullable quote (inscriptions a) @
     '','' @ quote ''date_start'' @ '':'' @ nullable show_int (date_start a) @
     '','' @ quote ''date_end'' @ '':'' @ nullable show_int (date_end a) @ ''}''"

fun separated :: "string list \<Rightarrow> string" where
  "separated [] = []"
| "separated [x] = x"
| "separated (x # y # ys) = x @ '','' @ separated (y # ys)"

definition engine_stringify :: "SelectionMap \<Rightarrow> string" where
  "engine_stringify m =
     ''{'' @ separated (map (\<lambda>(k, a). quote (show_int k) @ '':'' @ artwork_text a) m) @ ''}''"

fun expect :: "string \<Rightarrow> string \<Rightarrow> string option" where
  "expect [] s = Some s"
| "expect (p # ps) [] = None"
| "expect (p # ps) (c # cs) = (if p = c then expect ps cs else None)"

definition is_digit :: "char \<Rightarrow> bool" where
  "is_digit c \<longleftrightarrow> 48 \<le> (of_char c :: nat) \<and> (of_char c :: nat) \<le> 57"

definition parse_int :: "string \<Rightarrow> (int \<times> string) option" where
  "parse_int s =
     (let neg = (take 1 s = ''-'');
          t = (if neg then drop 1 s else s);
          ds = takeWhile is_digit t
      in if ds = [] then None
         else Some (if neg then - int (read_nat ds) else int (read_nat ds), dropWhile is_digit t))"

definition hex_value :: "char \<Rightarrow> nat option" where
  "hex_value c =
     (let n = (of_char c :: nat) in
      if 48 \<le> n \<and> n \<le> 57 then Some (n - 48)
      else if 97 \<le> n \<and> n \<le> 102 then Some (n - 87)
      else if 65 \<le> n \<and> n \<le> 70 then Some (n - 55)
      else None)"

definition unescape :: "char \<Rightarrow> char option" where
  "unescape e =
     (if e = CHR 0x22 \<or> e = CHR 0x5C \<or> e = CHR ''/'' then Some e
      else if e = CHR ''b'' then Some (CHR 0x08)
      else if e = CHR ''f'' then Some (CHR 0x0C)
      else if e = CHR ''n'' then Some (CHR 0x0A)
      else if e = CHR ''r'' then Some (CHR 0x0D)
      else if e = CHR ''t'' then Some (CHR 0x09)
      else None)"

definition next_char :: "string \<Rightarrow> (char \<times> string) option" where
  "next_char s =
     (case s of
        [] \<Rightarrow> None
      | c # cs \<Rightarrow>
          if c = CHR 0x5C then
            (case cs of
               [] \<Rightarrow> None
             | e # r \<Rightarrow>
                 if e = CHR ''u'' then
                   (case map hex_value (take 4 r) of
                      [Some 0, Some 0, Some x, Some y] \<Rightarrow> Some (char_of (16 * x + y), drop 4 r)
                    | _ \<Rightarrow> None)
                 else do { x \<leftarrow> unescape e; Some (x, r) })
          else if (of_char c :: nat) < 32 then None
          else Some (c, cs))"

fun parse_chars :: "nat \<Rightarrow> string \<Rightarrow> (string \<times> string) option" where
  "parse_chars 0 s = None"
| "parse_chars (Suc n) [] = None"
| "parse_chars (Suc n) (c # cs) =
     (if c = CHR 0x22 then Some ([], cs)
      else do { (x, r) \<leftarrow> next_char (c # cs); (t, r') \<leftarrow> parse_chars n r; Some (x # t, r') })"

definition parse_string :: "string \<Rightarrow> (string \<times> string) option" where
  "parse_string s = do { r \<leftarrow> expect [CHR 0x22] s; parse_chars (length r) r }"

definition parse_nullable ::
  "(string \<Rightarrow> ('a \<times> string) option) \<Rightarrow> string \<Rightarrow> ('a option \<times> string) option" where
  "parse_nullable p s =
     (case expect ''null'' s of
        Some r \<Rightarrow> Some (None, r)
      | None \<Rightarrow> do { (x, r) \<leftarrow> p s; Some (Some x, r) })"

definition parse_artwork :: "string \<Rightarrow> (artwork \<times> string) option" where
  "parse_artwork s0 =
     do {
       s \<leftarrow> expect (''{'' @ quote ''id'' @ '':'') s0;
       (i, s) \<leftarrow> parse_int s;
       s \<leftarrow> expect ('','' @ quote ''title'' @ '':'') s;
       (t, s) \<leftarrow> parse_nullable parse_string s;
       s \<leftarrow> expect ('','' @ quote ''place_of_origin'' @ '':'') s;
       (p, s) \<leftarrow> parse_nullable parse_string s;
       s \<leftarrow> expect ('','' @ quote ''artist_display'' @ '':'') s;
       (d, s) \<leftarrow> parse_nullable parse_string s;
       s \<leftarrow> expect ('','' @ quote ''inscriptions'' @ '':'') s;
       (n, s) \<leftarrow> parse_nullable parse_string s;
       s \<leftarrow> expect ('','' @ quote ''date_start'' @ '':'') s;
       (b, s) \<leftarrow> parse_nullable parse_int s;
       s \<leftarrow> expect ('','' @ quote ''date_end'' @ '':'') s;
       (e, s) \<leftarrow> parse_nullable parse_int s;
       s \<leftarrow> expect ''}'' s;
       Some (\<lparr>id' = i, title = t, place_of_origin = p, artist_display = d,
              inscriptions = n, date_start = b, date_end = e\<rparr>, s)
     }"

fun parse_entries :: "nat \<Rightarrow> string \<Rightarrow> ((int \<times> artwork) list \<times> string) option" where
  "parse_entries 0 s = None"
| "parse_entries (Suc n) [] = None"
| "parse_entries (Suc n) (c # cs) =
     do {
       (key, s) \<leftarrow> parse_string (c # cs);
       (k, r) \<leftarrow> parse_int key;
       s \<leftarrow> (if r = [] \<and> show_int k = key then expect '':'' s else None);
       (a, s) \<leftarrow> parse_artwork s;
       (case expect '','' s of
          Some s' \<Rightarrow> do { (m, r') \<leftarrow> parse_entries n s'; Some ((k, a) # m, r') }
        | None \<Rightarrow> Some ([(k, a)], s))
     }"

definition engine_parse :: "string \<Rightarrow> SelectionMap option" where
  "engine_parse raw =
     do {
       s \<leftarrow> expect ''{'' raw;
       (case expect ''}'' s of
          Some r \<Rightarrow> if r = [] then Some [] else None
        | None \<Rightarrow>
            do {
              (entries, r) \<leftarrow> parse_entries (length s) s;
              if r = ''}'' then Some (fold (\<lambda>(k, a) m. set_prop m k a) entries []) else None
            })
     }"

definition untitled :: artwork where
  "untitled = \<lparr>id' = 7, title = None, place_of_origin = Some ''x'', artist_display = None,
     inscriptions = None, date_start = Some 1884, date_end = None\<rparr>"

definition one_selected :: SelectionMap where
  "one_selected = [(7, untitled)]"

text \<open>What the persist effect of an earlier visit has left in \<open>localStorage\<close>.\<close>

definition earlier_visit :: "string \<rightharpoonup> string" where
  "earlier_visit = [STORAGE_KEY \<mapsto> engine_stringify one_selected]"

section \<open>Properties of the property operations\<close>

lemma get_set_prop: "get_prop (set_prop m k v) j = (if j = k then Some v else get_prop m j)"
  by (induction m) (auto simp: get_prop_def)

lemma get_delete_prop: "get_prop (delete_prop m k) j = (if j = k then None else get_prop m j)"
  by (induction m) (auto simp: get_prop_def delete_prop_def)

lemma get_prop_keys: "get_prop m k \<noteq> None \<longleftrightarrow> k \<in> set (Object_keys m)"
  by (simp add: get_prop_def Object_keys_def map_of_eq_None_iff)

lemma dom_get_prop: "dom (get_prop m) = set (Object_keys m)"
  by (auto simp: get_prop_keys [symmetric])

lemma set_set_prop: "set (set_prop m k v) \<subseteq> insert (k, v) (set m)"
  by (induction m) (auto split: if_splits)

lemma keys_set_prop: "set (map fst (set_prop m k v)) = insert k (set (map fst m))"
proof (induction m)
  case Nil
  then show ?case by simp
next
  case (Cons p m)
  obtain k' v' where p: "p = (k', v')" by (cases p)
  from Cons.IH show ?case
    by (auto simp: p)
qed

lemma kept_set_prop: "k \<in> ks \<Longrightarrow> kept ks (set_prop m k v) = kept ks m"
  by (induction m) (auto simp: kept_def split: if_splits)

lemma kept_delete_prop: "k \<in> ks \<Longrightarrow> kept ks (delete_prop m k) = kept ks m"
  by (induction m) (auto simp: kept_def delete_prop_def)

lemma keyed_set_prop: "keyed m \<Longrightarrow> id' v = k \<Longrightarrow> keyed (set_prop m k v)"
  using set_set_prop [of m k v] by (auto simp: keyed_def)

lemma keyed_delete_prop: "keyed m \<Longrightarrow> keyed (delete_prop m k)"
  by (auto simp: keyed_def delete_prop_def)

lemma js_object_set_prop: "js_object m \<Longrightarrow> js_object (set_prop m k v)"
proof (induction m)
  case Nil
  then show ?case by (simp add: js_object_def)
next
  case (Cons p m)
  obtain k' v' where p: "p = (k', v')" by (cases p)
  from Cons.prems have tl: "js_object m" and hd: "\<forall>j \<in> set (map fst m). js_ordered k' j"
    by (auto simp: js_object_def p)
  show ?case
  proof (cases "k' = k")
    case True
    with Cons.prems show ?thesis by (simp add: p js_object_def)
  next
    case False
    show ?thesis
    proof (cases "is_index k \<and> (is_index k' \<longrightarrow> k < k')")
      case True
      have "js_ordered k k'"
        using True False by (auto simp: js_ordered_def)
      moreover have "\<forall>j \<in> set (map fst m). js_ordered k j"
        using hd True by (fastforce simp: js_ordered_def)
      ultimately show ?thesis
        using Cons.prems False True by (auto simp: p js_object_def)
    next
      case no: False
      have "js_ordered k' k"
        using no False by (auto simp: js_ordered_def)
      with hd have "\<forall>j \<in> set (map fst (set_prop m k v)). js_ordered k' j"
        unfolding keys_set_prop by simp
      with Cons.IH [OF tl] show ?thesis
        using False no by (auto simp: p js_object_def)
    qed
  qed
qed

lemma js_object_delete_prop: "js_object m \<Longrightarrow> js_object (delete_prop m k)"
  by (simp add: js_object_def delete_prop_def sorted_wrt_filter filter_map comp_def
        case_prod_unfold sorted_wrt_map)

lemma js_object_distinct: "js_object m \<Longrightarrow> distinct (Object_keys m)"
  by (induction m) (auto simp: js_object_def Object_keys_def js_ordered_def)

lemma js_object_count: "js_object m \<Longrightarrow> length (Object_keys m) = card (dom (get_prop m))"
  by (simp add: dom_get_prop js_object_distinct distinct_card)

section \<open>The selection operations\<close>

lemma find_id: "find (\<lambda>it. id' it = k) its = Some row \<Longrightarrow> id' row = k"
  by (induction its) (auto split: if_splits)

lemma find_id_Some:
  "k \<in> id' ` set its \<Longrightarrow>
   \<exists>row. find (\<lambda>it. id' it = k) its = Some row \<and> row \<in> set its \<and> id' row = k"
  by (induction its) auto

lemma get_reconcile_step:
  "get_prop (reconcile_step its newIds prev i nxt) k =
     (if k = i \<and> k \<in> newIds \<and> get_prop prev k = None \<and>
         find (\<lambda>it. id' it = k) its \<noteq> None
      then find (\<lambda>it. id' it = k) its
      else if k = i \<and> k \<notin> newIds \<and> get_prop prev k \<noteq> None then None
      else get_prop nxt k)"
  by (auto simp: reconcile_step_def Let_def get_set_prop get_delete_prop split: option.splits)

lemma get_reconcile:
  "get_prop (reconcile its newIds prev pageIds nxt) k =
     (if k \<in> set pageIds \<and> k \<in> newIds \<and> get_prop prev k = None \<and>
         find (\<lambda>it. id' it = k) its \<noteq> None
      then find (\<lambda>it. id' it = k) its
      else if k \<in> set pageIds \<and> k \<notin> newIds \<and> get_prop prev k \<noteq> None then None
      else get_prop nxt k)"
proof (induction pageIds arbitrary: nxt)
  case Nil
  then show ?case by simp
next
  case (Cons i pageIds)
  show ?case
    unfolding reconcile.simps Cons.IH get_reconcile_step by auto
qed

lemma kept_reconcile_step: "i \<in> ks \<Longrightarrow> kept ks (reconcile_step its newIds prev i nxt) = kept ks nxt"
  by (simp add: reconcile_step_def Let_def kept_set_prop kept_delete_prop split: option.splits)

lemma kept_reconcile:
  "set pageIds \<subseteq> ks \<Longrightarrow> kept ks (reconcile its newIds prev pageIds nxt) = kept ks nxt"
  by (induction pageIds arbitrary: nxt) (simp_all add: kept_reconcile_step)

lemma keyed_reconcile_step: "keyed nxt \<Longrightarrow> keyed (reconcile_step its newIds prev i nxt)"
  by (auto simp: reconcile_step_def Let_def split: option.splits
           intro: keyed_set_prop keyed_delete_prop dest: find_id)

lemma keyed_reconcile: "keyed nxt \<Longrightarrow> keyed (reconcile its newIds prev pageIds nxt)"
  by (induction pageIds arbitrary: nxt) (simp_all add: keyed_reconcile_step)

lemma js_object_reconcile_step: "js_object nxt \<Longrightarrow> js_object (reconcile_step its newIds prev i nxt)"
  by (simp add: reconcile_step_def Let_def js_object_set_prop js_object_delete_prop
        split: option.splits)

lemma js_object_reconcile: "js_object nxt \<Longrightarrow> js_object (reconcile its newIds prev pageIds nxt)"
  by (induction pageIds arbitrary: nxt) (simp_all add: js_object_reconcile_step)

lemma get_select_all:
  "k \<notin> id' ` set its \<Longrightarrow> get_prop (fold (\<lambda>row nxt. set_prop nxt (id' row) row) its prev) k = get_prop prev k"
  by (induction its arbitrary: prev) (auto simp: get_set_prop)

lemma get_deselect_all:
  "k \<notin> id' ` set its \<Longrightarrow> get_prop (fold (\<lambda>row nxt. delete_prop nxt (id' row)) its prev) k = get_prop prev k"
  by (induction its arbitrary: prev) (auto simp: get_delete_prop)

lemma kept_select_all:
  "id' ` set its \<subseteq> ks \<Longrightarrow> kept ks (fold (\<lambda>row nxt. set_prop nxt (id' row) row) its prev) = kept ks prev"
  by (induction its arbitrary: prev) (simp_all add: kept_set_prop)

lemma kept_deselect_all:
  "id' ` set its \<subseteq> ks \<Longrightarrow> kept ks (fold (\<lambda>row nxt. delete_prop nxt (id' row)) its prev) = kept ks prev"
  by (induction its arbitrary: prev) (simp_all add: kept_delete_prop)

lemma keyed_select_all: "keyed prev \<Longrightarrow> keyed (fold (\<lambda>row nxt. set_prop nxt (id' row) row) its prev)"
  by (induction its arbitrary: prev) (simp_all add: keyed_set_prop)

lemma keyed_deselect_all: "keyed prev \<Longrightarrow> keyed (fold (\<lambda>row nxt. delete_prop nxt (id' row)) its prev)"
  by (induction its arbitrary: prev) (simp_all add: keyed_delete_prop)

lemma js_object_select_all:
  "js_object prev \<Longrightarrow> js_object (fold (\<lambda>row nxt. set_prop nxt (id' row) row) its prev)"
  by (induction its arbitrary: prev) (simp_all add: js_object_set_prop)

lemma js_object_deselect_all:
  "js_object prev \<Longrightarrow> js_object (fold (\<lambda>row nxt. delete_prop nxt (id' row)) its prev)"
  by (induction its arbitrary: prev) (simp_all add: js_object_delete_prop)

section \<open>The fetch effect\<close>

lemma selectedMap_run_fetch_effect: "selectedMap (run_fetch_effect st) = selectedMap st"
  by (simp add: run_fetch_effect_def)

lemma selectedMap_rerun: "selectedMap (rerun_if_changed old new) = selectedMap new"
  by (simp add: rerun_if_changed_def selectedMap_run_fetch_effect)

lemma selectedMap_settle: "selectedMap (settle fetch n st) = selectedMap st"
  by (simp add: settle_def Let_def then_handler_def catch_handler_def finally_handler_def
           split: sum.splits)

lemma tasks_settle:
  "tasks (settle fetch n st) =
     (if n < length (tasks st) \<and> \<not> settled (tasks st ! n)
      then (tasks st)[n := (tasks st ! n)\<lparr>settled := True\<rparr>] else tasks st)"
  by (simp add: settle_def Let_def then_handler_def catch_handler_def finally_handler_def
           split: sum.splits)

lemma settle_fulfilled:
  assumes "n < length (tasks st)" "\<not> settled (tasks st ! n)" "mounted (tasks st ! n)"
    and "fetchArtworksPage fetch (req_page (tasks st ! n)) (req_limit (tasks st ! n)) = Inr r"
  shows "items (settle fetch n st) = res_items r"
    and "totalRecords (settle fetch n st) = res_total r"
    and "shown (pageSelection (settle fetch n st)) =
           {it \<in> set (res_items r). get_prop (closure_map (tasks st ! n)) (id' it) \<noteq> None}"
  using assms
  by (auto simp: settle_def Let_def then_handler_def finally_handler_def shown_def
        filter_empty_conv)

lemma settle_rejected:
  assumes "n < length (tasks st)" "\<not> settled (tasks st ! n)"
    and "fetchArtworksPage fetch (req_page (tasks st ! n)) (req_limit (tasks st ! n)) = Inl err"
  shows "settle fetch n st =
     st\<lparr>console := console st @ [err], items := [], totalRecords := 0, pageSelection := None,
        loading := (if mounted (tasks st ! n) then False else loading st),
        tasks := (tasks st)[n := (tasks st ! n)\<lparr>settled := True\<rparr>]\<rparr>"
  using assms by (simp add: settle_def Let_def catch_handler_def finally_handler_def)

lemma stale_fulfilled_discarded:
  assumes "n < length (tasks st)" "\<not> mounted (tasks st ! n)"
    and "fetchArtworksPage fetch (req_page (tasks st ! n)) (req_limit (tasks st ! n)) = Inr r"
  shows "items (settle fetch n st) = items st"
    and "totalRecords (settle fetch n st) = totalRecords st"
    and "pageSelection (settle fetch n st) = pageSelection st"
    and "loading (settle fetch n st) = loading st"
  using assms by (simp_all add: settle_def Let_def then_handler_def finally_handler_def)

lemma closures_run_fetch_effect: "closures_current (run_fetch_effect st)"
  by (auto simp: closures_current_def run_fetch_effect_def)

lemma closures_settle: "closures_current st \<Longrightarrow> closures_current (settle fetch n st)"
proof -
  assume inv: "closures_current st"
  show ?thesis
    unfolding closures_current_def selectedMap_settle
  proof (intro ballI impI)
    fix t
    assume t: "t \<in> set (tasks (settle fetch n st))" and m: "mounted t"
    show "closure_map t = selectedMap st"
    proof (cases "n < length (tasks st) \<and> \<not> settled (tasks st ! n)")
      case True
      with t have "t \<in> insert ((tasks st ! n)\<lparr>settled := True\<rparr>) (set (tasks st))"
        using set_update_subset_insert [of "tasks st" n] by (auto simp: tasks_settle)
      moreover have "tasks st ! n \<in> set (tasks st)"
        using True by simp
      ultimately show ?thesis
        using inv m by (auto simp: closures_current_def)
    next
      case False
      with t inv m show ?thesis
        by (auto simp: tasks_settle closures_current_def)
    qed
  qed
qed

lemma closures_rerun:
  "closures_current old \<Longrightarrow> selectedMap new = selectedMap old \<Longrightarrow> tasks new = tasks old \<Longrightarrow>
   closures_current (rerun_if_changed old new)"
proof (cases "page new \<noteq> page old \<or> rowsPerPage new \<noteq> rowsPerPage old")
  case True
  then show ?thesis
    by (simp add: rerun_if_changed_def closures_run_fetch_effect)
next
  case False
  assume "closures_current old" "selectedMap new = selectedMap old" "tasks new = tasks old"
  with False show ?thesis
    by (simp add: rerun_if_changed_def closures_current_def)
qed

lemma closures_step: "closures_current st \<Longrightarrow> closures_current (step st e)"
  by (cases e)
     (simp_all add: closures_run_fetch_effect closures_settle closures_rerun
        onPageChange_def onValueChange_def Let_def)

lemma closures_run: "closures_current (run es)"
proof -
  have "closures_current st \<Longrightarrow> closures_current (foldl step st es)" for st
    by (induction es arbitrary: st) (simp_all add: closures_step)
  then show ?thesis
    by (simp add: run_def mounted_state_def closures_run_fetch_effect)
qed

lemma well_formed_step: "well_formed st \<Longrightarrow> well_formed (step st e)"
proof (cases e)
  case (SelectionChange val)
  assume "well_formed st"
  then show ?thesis
    by (simp add: SelectionChange well_formed_def selectedMap_run_fetch_effect
          onSelectionChange_def onSelectionChange_next_def Let_def
          js_object_reconcile keyed_reconcile)
next
  case SelectAllPage
  assume "well_formed st"
  then show ?thesis
    by (simp add: SelectAllPage well_formed_def selectedMap_run_fetch_effect
          onSelectAllPage_def onSelectAllPage_next_def js_object_select_all keyed_select_all)
next
  case DeselectAllPage
  assume "well_formed st"
  then show ?thesis
    by (simp add: DeselectAllPage well_formed_def selectedMap_run_fetch_effect
          onDeselectAllPage_def onDeselectAllPage_next_def js_object_deselect_all
          keyed_deselect_all)
next
  case (Remove k)
  assume "well_formed st"
  then show ?thesis
    by (simp add: Remove well_formed_def selectedMap_run_fetch_effect
          removeFromSelection_def removeFromSelection_next_def js_object_delete_prop
          keyed_delete_prop)
next
  case (Toggle row checked)
  assume "well_formed st"
  then show ?thesis
    by (simp add: Toggle well_formed_def selectedMap_run_fetch_effect
          toggleRow_def toggleRow_next_def Let_def js_object_delete_prop keyed_delete_prop
          js_object_set_prop keyed_set_prop)
next
  case (PageChange p)
  assume "well_formed st"
  then show ?thesis
    by (simp add: PageChange well_formed_def selectedMap_rerun onPageChange_def Let_def)
next
  case (RowsChange v)
  assume "well_formed st"
  then show ?thesis
    by (simp add: RowsChange well_formed_def selectedMap_rerun onValueChange_def Let_def)
next
  case (Settle fetch n)
  assume "well_formed st"
  then show ?thesis
    by (simp add: Settle well_formed_def selectedMap_settle)
qed

lemma well_formed_run: "well_formed (run es)"
proof -
  have "well_formed st \<Longrightarrow> well_formed (foldl step st es)" for st
    by (induction es arbitrary: st) (simp_all add: well_formed_step)
  moreover have "well_formed mounted_state"
    by (simp add: well_formed_def mounted_state_def run_fetch_effect_def initial_state_def
          js_object_def keyed_def)
  ultimately show ?thesis
    by (simp add: run_def)
qed

section \<open>The rows shown as checked\<close>

text \<open>
  Claim C1. The rows shown as checked are the rows of the page whose identifier is a key
  of the selection map: this holds of \<open>dtSelection\<close> in every state, and of the
  \<open>pageSelection\<close> stored when the fetch of the current effect run is fulfilled,
  after any sequence of events.
\<close>

theorem checked_rows_are_page_items_in_selection:
  "(it \<in> set (dtSelection st) \<longleftrightarrow>
      it \<in> set (items st) \<and> id' it \<in> set (Object_keys (selectedMap st))) \<and>
   (n < length (tasks (run es)) \<and> \<not> settled (tasks (run es) ! n) \<and>
    mounted (tasks (run es) ! n) \<and>
    fetchArtworksPage fetch (req_page (tasks (run es) ! n)) (req_limit (tasks (run es) ! n)) = Inr r
    \<longrightarrow>
      (it \<in> shown (pageSelection (step (run es) (Settle fetch n))) \<longleftrightarrow>
         it \<in> set (items (step (run es) (Settle fetch n))) \<and>
         id' it \<in> set (Object_keys (selectedMap (step (run es) (Settle fetch n))))))"
proof (intro conjI impI)
  show "it \<in> set (dtSelection st) \<longleftrightarrow>
      it \<in> set (items st) \<and> id' it \<in> set (Object_keys (selectedMap st))"
    by (auto simp: dtSelection_def get_prop_keys [symmetric])
next
  let ?st = "run es"
  assume a: "n < length (tasks ?st) \<and> \<not> settled (tasks ?st ! n) \<and> mounted (tasks ?st ! n) \<and>
    fetchArtworksPage fetch (req_page (tasks ?st ! n)) (req_limit (tasks ?st ! n)) = Inr r"
  then have "tasks ?st ! n \<in> set (tasks ?st)" by simp
  with a closures_run [of es] have c: "closure_map (tasks ?st ! n) = selectedMap ?st"
    by (auto simp: closures_current_def)
  from a show "it \<in> shown (pageSelection (step ?st (Settle fetch n))) \<longleftrightarrow>
         it \<in> set (items (step ?st (Settle fetch n))) \<and>
         id' it \<in> set (Object_keys (selectedMap (step ?st (Settle fetch n))))"
    using get_prop_keys [of "selectedMap ?st" "id' it"]
    by (auto simp: settle_fulfilled c selectedMap_settle)
qed

theorem checked_rows_witness:
  "sunday \<in> set (dtSelection two_rows) \<and>
   1 < length (tasks (run select_sunday)) \<and>
   \<not> settled (tasks (run select_sunday) ! 1) \<and>
   mounted (tasks (run select_sunday) ! 1) \<and>
   fetchArtworksPage two_records (req_page (tasks (run select_sunday) ! 1))
     (req_limit (tasks (run select_sunday) ! 1)) = Inr two_records_result \<and>
   sunday \<in> shown (pageSelection (step (run select_sunday) (Settle two_records 1))) \<and>
   nighthawks \<notin> shown (pageSelection (step (run select_sunday) (Settle two_records 1)))"
proof -
  have h: "1 < length (tasks (run select_sunday)) \<and>
      \<not> settled (tasks (run select_sunday) ! 1) \<and>
      mounted (tasks (run select_sunday) ! 1) \<and>
      fetchArtworksPage two_records (req_page (tasks (run select_sunday) ! 1))
        (req_limit (tasks (run select_sunday) ! 1)) = Inr two_records_result"
    by code_simp
  have i: "sunday \<in> set (items two_rows) \<and> id' sunday \<in> set (Object_keys (selectedMap two_rows))"
    by code_simp
  have j: "sunday \<in> set (items (step (run select_sunday) (Settle two_records 1))) \<and>
      id' sunday \<in> set (Object_keys (selectedMap (step (run select_sunday) (Settle two_records 1))))"
    by code_simp
  have k: "id' nighthawks \<notin> set (Object_keys (selectedMap (step (run select_sunday) (Settle two_records 1))))"
    by code_simp
  show ?thesis
    using checked_rows_are_page_items_in_selection
            [of sunday two_rows 1 select_sunday two_records two_records_result]
          checked_rows_are_page_items_in_selection
            [of nighthawks two_rows 1 select_sunday two_records two_records_result]
          h i j k
    by blast
qed

section \<open>Changes of the selection\<close>

text \<open>
  Claim C2. After \<open>onSelectionChange\<close>, an identifier of the current page is a key
  of the selection map exactly when it occurs in the event's selection; an identifier
  that was not a key before is stored with the page's row of that identifier.
\<close>

theorem onSelectionChange_keys_on_page:
  assumes "k \<in> id' ` set (items st)"
  shows "(k \<in> set (Object_keys (selectedMap (onSelectionChange val st))) \<longleftrightarrow>
            k \<in> id' ` set (case val of Some v \<Rightarrow> v | None \<Rightarrow> [])) \<and>
         (k \<in> id' ` set (case val of Some v \<Rightarrow> v | None \<Rightarrow> []) \<and>
          k \<notin> set (Object_keys (selectedMap st)) \<longrightarrow>
            (\<exists>row. get_prop (selectedMap (onSelectionChange val st)) k = Some row \<and>
                   find (\<lambda>it. id' it = k) (items st) = Some row \<and>
                   row \<in> set (items st) \<and> id' row = k))"
proof -
  from assms obtain row where
    row: "find (\<lambda>it. id' it = k) (items st) = Some row" "row \<in> set (items st)" "id' row = k"
    using find_id_Some by blast
  have sel: "selectedMap (onSelectionChange val st) =
      reconcile (items st) (id' ` set (case val of Some v \<Rightarrow> v | None \<Rightarrow> []))
        (selectedMap st) (map id' (items st)) (selectedMap st)"
    by (simp add: onSelectionChange_def onSelectionChange_next_def Let_def)
  have "get_prop (selectedMap (onSelectionChange val st)) k =
      (if k \<in> id' ` set (case val of Some v \<Rightarrow> v | None \<Rightarrow> [])
       then (if get_prop (selectedMap st) k = None then Some row else get_prop (selectedMap st) k)
       else None)"
    using assms row by (auto simp: sel get_reconcile)
  then show ?thesis
    using row by (auto simp: get_prop_keys [symmetric])
qed

theorem onSelectionChange_witness:
  "111628 \<in> id' ` set (items two_rows) \<and>
   111628 \<in> set (Object_keys (selectedMap (onSelectionChange (Some [nighthawks]) two_rows))) \<and>
   get_prop (selectedMap (onSelectionChange (Some [nighthawks]) two_rows)) 111628 = Some nighthawks \<and>
   27992 \<in> id' ` set (items two_rows) \<and>
   27992 \<notin> set (Object_keys (selectedMap (onSelectionChange (Some [nighthawks]) two_rows)))"
proof -
  have h: "111628 \<in> id' ` set (items two_rows)" "27992 \<in> id' ` set (items two_rows)"
    by code_simp+
  have i: "111628 \<in> id' ` set (case Some [nighthawks] of Some v \<Rightarrow> v | None \<Rightarrow> [])"
      "111628 \<notin> set (Object_keys (selectedMap two_rows))"
      "27992 \<notin> id' ` set (case Some [nighthawks] of Some v \<Rightarrow> v | None \<Rightarrow> [])"
      "find (\<lambda>it. id' it = 111628) (items two_rows) = Some nighthawks"
    by code_simp+
  show ?thesis
    using onSelectionChange_keys_on_page [OF h(1), of "Some [nighthawks]"]
          onSelectionChange_keys_on_page [OF h(2), of "Some [nighthawks]"] h i
    by auto
qed

text \<open>
  Claim C3. \<open>onSelectionChange\<close>, \<open>onSelectAllPage\<close> and
  \<open>onDeselectAllPage\<close> leave the entries whose identifier is not on the current
  page as they are: the same entries in the same order, and the same lookups.
\<close>

theorem page_operations_keep_other_pages:
  "kept (id' ` set (items st)) (selectedMap (onSelectionChange val st)) =
     kept (id' ` set (items st)) (selectedMap st) \<and>
   kept (id' ` set (items st)) (selectedMap (onSelectAllPage st)) =
     kept (id' ` set (items st)) (selectedMap st) \<and>
   kept (id' ` set (items st)) (selectedMap (onDeselectAllPage st)) =
     kept (id' ` set (items st)) (selectedMap st) \<and>
   (k \<notin> id' ` set (items st) \<longrightarrow>
      get_prop (selectedMap (onSelectionChange val st)) k = get_prop (selectedMap st) k \<and>
      get_prop (selectedMap (onSelectAllPage st)) k = get_prop (selectedMap st) k \<and>
      get_prop (selectedMap (onDeselectAllPage st)) k = get_prop (selectedMap st) k)"
  by (simp add: onSelectionChange_def onSelectionChange_next_def Let_def kept_reconcile
        onSelectAllPage_def onSelectAllPage_next_def kept_select_all get_select_all
        onDeselectAllPage_def onDeselectAllPage_next_def kept_deselect_all get_deselect_all
        get_reconcile)

theorem page_operations_witness:
  "28560 \<notin> id' ` set (items two_rows) \<and>
   get_prop (selectedMap (onSelectionChange (Some [nighthawks]) two_rows)) 28560 = Some bedroom \<and>
   get_prop (selectedMap (onSelectAllPage two_rows)) 28560 = Some bedroom \<and>
   get_prop (selectedMap (onDeselectAllPage two_rows)) 28560 = Some bedroom \<and>
   kept (id' ` set (items two_rows)) (selectedMap (onDeselectAllPage two_rows)) = [(28560, bedroom)]"
proof -
  have h: "28560 \<notin> id' ` set (items two_rows)"
    by code_simp
  have i: "get_prop (selectedMap two_rows) 28560 = Some bedroom"
      "kept (id' ` set (items two_rows)) (selectedMap two_rows) = [(28560, bedroom)]"
    by code_simp+
  show ?thesis
    using page_operations_keep_other_pages [of two_rows "Some [nighthawks]" 28560] h i
    by simp
qed

text \<open>
  Claim C9. Every selection operation keeps the invariant that each entry of the
  selection map is stored under the identifier of its record.
\<close>

theorem selection_operations_preserve_keyed:
  assumes "keyed (selectedMap st)"
  shows "keyed (selectedMap (onSelectionChange val st)) \<and>
         keyed (selectedMap (onSelectAllPage st)) \<and>
         keyed (selectedMap (onDeselectAllPage st)) \<and>
         keyed (selectedMap (removeFromSelection k st)) \<and>
         keyed (selectedMap (toggleRow row checked st))"
  using assms
  by (simp add: onSelectionChange_def onSelectionChange_next_def Let_def keyed_reconcile
        onSelectAllPage_def onSelectAllPage_next_def keyed_select_all
        onDeselectAllPage_def onDeselectAllPage_next_def keyed_deselect_all
        removeFromSelection_def removeFromSelection_next_def keyed_delete_prop
        toggleRow_def toggleRow_next_def keyed_set_prop)

theorem selection_operations_witness:
  "keyed (selectedMap two_rows) \<and>
   keyed (selectedMap (onSelectionChange (Some [nighthawks]) two_rows)) \<and>
   keyed (selectedMap (onSelectAllPage two_rows)) \<and>
   keyed (selectedMap (onDeselectAllPage two_rows)) \<and>
   keyed (selectedMap (removeFromSelection 27992 two_rows)) \<and>
   keyed (selectedMap (toggleRow nighthawks True two_rows))"
proof -
  have h: "keyed (selectedMap two_rows)"
    by code_simp
  show ?thesis
    using selection_operations_preserve_keyed [OF h, of "Some [nighthawks]" 27992 nighthawks True] h
    by simp
qed

section \<open>The fetch adapter: results and errors\<close>

lemma map_records_Val: "map_records (map Val ds) = Inr (map to_artwork ds)"
  by (induction ds) (simp_all add: Let_def)

lemma all_Val:
  "list_all (\<lambda>e. case e of Val d \<Rightarrow> True | _ \<Rightarrow> False) es \<Longrightarrow> \<exists>ds. es = map Val ds"
proof (induction es)
  case Nil
  then show ?case by simp
next
  case (Cons e es)
  then obtain ds where "es = map Val ds" by auto
  moreover from Cons.prems obtain d where "e = Val d" by (cases e) auto
  ultimately have "e # es = map Val (d # ds)" by simp
  then show ?case by (rule exI)
qed

lemma map_records_null:
  "\<not> list_all (\<lambda>e. case e of Val d \<Rightarrow> True | _ \<Rightarrow> False) es \<Longrightarrow> map_records es = Inl TypeError"
proof (induction es)
  case Nil
  then show ?case by simp
next
  case (Cons e es)
  then show ?case by (cases e) (auto simp: Let_def)
qed

lemma readable_items:
  "readable j \<Longrightarrow> \<exists>ds. or_empty (data j) = Array (map Val ds) \<and>
     (\<forall>es. data j = Val (Array es) \<longrightarrow> es = map Val ds) \<and>
     ((\<forall>es. data j \<noteq> Val (Array es)) \<longrightarrow> ds = [])"
proof (cases "data j")
  case Undefined
  then show ?thesis by (intro exI [of _ "[]"]) simp
next
  case Null
  then show ?thesis by (intro exI [of _ "[]"]) simp
next
  case (Val v)
  assume r: "readable j"
  show ?thesis
  proof (cases v)
    case (Array es)
    with r Val obtain ds where "es = map Val ds"
      using all_Val by (auto simp: readable_def)
    with Val Array show ?thesis by (intro exI [of _ ds]) simp
  next
    case (NotArray truthy)
    with r Val show ?thesis by (intro exI [of _ "[]"]) (simp add: readable_def)
  qed
qed

lemma unreadable_fails:
  "\<not> readable j \<Longrightarrow>
   (\<exists>truthy. or_empty (data j) = NotArray truthy) \<or>
   (\<exists>es. or_empty (data j) = Array es \<and> map_records es = Inl TypeError)"
  by (auto simp: readable_def map_records_null split: jsopt.splits data_value.splits)

lemma fetchArtworksPage_ok:
  assumes "fetch (artworks_url pg lim) = Some res" "ok res" "json res = Some (Val j)"
    and "or_empty (data j) = Array (map Val ds)"
  shows "fetchArtworksPage fetch pg lim =
     Inr \<lparr>res_items = map to_artwork ds,
          res_total = (case or_null (pagination j) of None \<Rightarrow> 0 | Some p \<Rightarrow> or_else (total' p) 0),
          per_page = (case or_null (pagination j) of None \<Rightarrow> lim | Some p \<Rightarrow> or_else (limit p) lim)\<rparr>"
  using assms by (simp add: fetchArtworksPage_def Let_def map_records_Val)

lemma fetchArtworksPage_TypeError:
  assumes "fetch (artworks_url pg lim) = Some res" "ok res"
    and "json res = Some Null \<or> json res = Some Undefined \<or>
         (\<exists>j. json res = Some (Val j) \<and> \<not> readable j)"
  shows "fetchArtworksPage fetch pg lim = Inl TypeError"
proof -
  from assms(3) consider "json res = Some Null" | "json res = Some Undefined"
    | j where "json res = Some (Val j)" "\<not> readable j"
    by blast
  then show ?thesis
  proof cases
    case 1
    with assms(1,2) show ?thesis by (simp add: fetchArtworksPage_def)
  next
    case 2
    with assms(1,2) show ?thesis by (simp add: fetchArtworksPage_def)
  next
    case 3
    from unreadable_fails [OF 3(2)] show ?thesis
    proof (elim disjE exE conjE)
      fix truthy
      assume "or_empty (data j) = NotArray truthy"
      with assms(1,2) 3(1) show ?thesis by (simp add: fetchArtworksPage_def)
    next
      fix es
      assume "or_empty (data j) = Array es" "map_records es = Inl TypeError"
      with assms(1,2) 3(1) show ?thesis by (simp add: fetchArtworksPage_def)
    qed
  qed
qed

lemma or_null_cases: "or_null x = (case x of Val v \<Rightarrow> Some v | _ \<Rightarrow> None)"
  by (cases x) simp_all

lemma or_else_cases: "or_else x d = (case x of Val v \<Rightarrow> v | _ \<Rightarrow> d)"
  by (cases x) simp_all

text \<open>
  Claim C5. For an ok response whose body is JSON and can be read,
  \<open>fetchArtworksPage\<close> returns one artwork for each raw record of \<open>data\<close>, in
  order, with the raw \<open>id\<close> and with every other column equal to the raw value,
  \<open>undefined\<close> and \<open>null\<close> both becoming \<open>null\<close>; a missing \<open>data\<close> gives no
  items; \<open>total\<close> is \<open>pagination.total\<close> or 0, and \<open>per_page\<close> is
  \<open>pagination.limit\<close> or the requested limit.
\<close>

theorem fetchArtworksPage_normalizes:
  assumes "fetch (artworks_url pg lim) = Some res" and "ok res" and "json res = Some (Val j)"
    and "readable j"
  shows "\<exists>r. fetchArtworksPage fetch pg lim = Inr r \<and>
    (\<forall>ds. data j = Val (Array (map Val ds)) \<longrightarrow>
       length (res_items r) = length ds \<and>
       (\<forall>i < length ds.
          id' (res_items r ! i) = raw_id (ds ! i) \<and>
          title (res_items r ! i) =
            (case raw_title (ds ! i) of Val x \<Rightarrow> Some x | _ \<Rightarrow> None) \<and>
          place_of_origin (res_items r ! i) =
            (case raw_place_of_origin (ds ! i) of Val x \<Rightarrow> Some x | _ \<Rightarrow> None) \<and>
          artist_display (res_items r ! i) =
            (case raw_artist_display (ds ! i) of Val x \<Rightarrow> Some x | _ \<Rightarrow> None) \<and>
          inscriptions (res_items r ! i) =
            (case raw_inscriptions (ds ! i) of Val x \<Rightarrow> Some x | _ \<Rightarrow> None) \<and>
          date_start (res_items r ! i) =
            (case raw_date_start (ds ! i) of Val x \<Rightarrow> Some x | _ \<Rightarrow> None) \<and>
          date_end (res_items r ! i) =
            (case raw_date_end (ds ! i) of Val x \<Rightarrow> Some x | _ \<Rightarrow> None))) \<and>
    (data j = Undefined \<or> data j = Null \<or> data j = Val (NotArray False) \<longrightarrow>
       res_items r = []) \<and>
    res_total r =
      (case pagination j of
         Val p \<Rightarrow> (case total' p of Val t \<Rightarrow> t | _ \<Rightarrow> 0)
       | _ \<Rightarrow> 0) \<and>
    per_page r =
      (case pagination j of
         Val p \<Rightarrow> (case limit p of Val l \<Rightarrow> l | _ \<Rightarrow> lim)
       | _ \<Rightarrow> lim)"
proof -
  from readable_items [OF assms(4)] obtain ds0 where
    d0: "or_empty (data j) = Array (map Val ds0)"
    and d1: "\<forall>es. data j = Val (Array es) \<longrightarrow> es = map Val ds0"
    and d2: "(\<forall>es. data j \<noteq> Val (Array es)) \<longrightarrow> ds0 = []"
    by blast
  have inj: "map Val ds = map Val ds0 \<Longrightarrow> ds = ds0" for ds :: "raw_artwork list"
    by (simp add: inj_map_eq_map inj_def)
  have same: "data j = Val (Array (map Val ds)) \<Longrightarrow> ds = ds0" for ds
    using d1 inj by blast
  have none: "data j = Undefined \<or> data j = Null \<or> data j = Val (NotArray False) \<Longrightarrow> ds0 = []"
    using d2 by auto
  show ?thesis
    unfolding fetchArtworksPage_ok [of fetch pg lim res j ds0, OF assms(1-3) d0]
    using same none
    by (auto simp: to_artwork_def or_null_cases or_else_cases split: jsopt.splits)
qed

theorem fetchArtworksPage_normalizes_witness:
  "two_records (artworks_url 1 10) = Some two_records_response \<and>
   ok two_records_response \<and>
   json two_records_response = Some (Val two_records_body) \<and>
   readable two_records_body \<and>
   data two_records_body = Val (Array (map Val [raw_sunday, raw_nighthawks])) \<and>
   fetchArtworksPage two_records 1 10 = Inr two_records_result \<and>
   length (res_items two_records_result) = 2 \<and>
   id' (res_items two_records_result ! 1) = raw_id raw_nighthawks \<and>
   inscriptions (res_items two_records_result ! 1) = None \<and>
   res_total two_records_result = 2 \<and>
   per_page two_records_result = 10"
proof -
  let ?ds = "[raw_sunday, raw_nighthawks]"
  have h: "two_records (artworks_url 1 10) = Some two_records_response"
      "ok two_records_response"
      "json two_records_response = Some (Val two_records_body)"
      "readable two_records_body"
    by (simp_all add: two_records_def two_records_response_def two_records_body_def
          readable_def)
  have d: "data two_records_body = Val (Array (map Val ?ds))"
    by (simp add: two_records_body_def)
  have p: "pagination two_records_body =
      Val \<lparr>total' = Val 2, limit = Val 10, offset = Val 0, total_pages = Val 1\<rparr>"
    by (simp add: two_records_body_def)
  have e: "fetchArtworksPage two_records 1 10 = Inr two_records_result"
    by code_simp
  have u: "raw_inscriptions raw_nighthawks = Undefined"
    by (simp add: raw_nighthawks_def)
  from fetchArtworksPage_normalizes
         [of two_records 1 10 two_records_response two_records_body] h
  obtain r where r: "fetchArtworksPage two_records 1 10 = Inr r"
    and items: "\<forall>ds. data two_records_body = Val (Array (map Val ds)) \<longrightarrow>
       length (res_items r) = length ds \<and>
       (\<forall>i < length ds.
          id' (res_items r ! i) = raw_id (ds ! i) \<and>
          title (res_items r ! i) =
            (case raw_title (ds ! i) of Val x \<Rightarrow> Some x | _ \<Rightarrow> None) \<and>
          place_of_origin (res_items r ! i) =
            (case raw_place_of_origin (ds ! i) of Val x \<Rightarrow> Some x | _ \<Rightarrow> None) \<and>
          artist_display (res_items r ! i) =
            (case raw_artist_display (ds ! i) of Val x \<Rightarrow> Some x | _ \<Rightarrow> None) \<and>
          inscriptions (res_items r ! i) =
            (case raw_inscriptions (ds ! i) of Val x \<Rightarrow> Some x | _ \<Rightarrow> None) \<and>
          date_start (res_items r ! i) =
            (case raw_date_start (ds ! i) of Val x \<Rightarrow> Some x | _ \<Rightarrow> None) \<and>
          date_end (res_items r ! i) =
            (case raw_date_end (ds ! i) of Val x \<Rightarrow> Some x | _ \<Rightarrow> None))"
    and tot: "res_total r =
      (case pagination two_records_body of
         Val p \<Rightarrow> (case total' p of Val t \<Rightarrow> t | _ \<Rightarrow> 0)
       | _ \<Rightarrow> 0)"
    and pp: "per_page r =
      (case pagination two_records_body of
         Val p \<Rightarrow> (case limit p of Val l \<Rightarrow> l | _ \<Rightarrow> 10)
       | _ \<Rightarrow> 10)"
    by blast
  from r e have eq: "r = two_records_result" by simp
  from items d have l: "length (res_items r) = length ?ds"
    and n: "\<forall>i < length ?ds.
          id' (res_items r ! i) = raw_id (?ds ! i) \<and>
          inscriptions (res_items r ! i) =
            (case raw_inscriptions (?ds ! i) of Val x \<Rightarrow> Some x | _ \<Rightarrow> None)"
    by blast+
  from n have "id' (res_items r ! 1) = raw_id raw_nighthawks"
    and "inscriptions (res_items r ! 1) = None"
    by (simp_all add: u)
  with l tot pp h d e show ?thesis
    unfolding eq p by simp
qed

text \<open>
  Claim C10, amended. \<open>fetchArtworksPage\<close> fails with the error
  \<open>Failed to fetch artworks\<close> exactly when the response is not ok. An ok response
  gives a result exactly when its body is JSON and can be read, as every body of the
  declared shape can. An ok response whose body is not JSON fails with the
  \<open>SyntaxError\<close> of \<open>res.json()\<close>; one whose JSON body is \<open>null\<close>, or has a
  truthy \<open>data\<close> that is not an array, or has a \<open>null\<close> element in \<open>data\<close>,
  fails with a \<open>TypeError\<close>.
\<close>

theorem fetchArtworksPage_raises:
  assumes "fetch (artworks_url pg lim) = Some res"
  shows "(fetchArtworksPage fetch pg lim = Inl (Error ''Failed to fetch artworks'') \<longleftrightarrow> \<not> ok res) \<and>
         (ok res \<longrightarrow>
            ((\<exists>r. fetchArtworksPage fetch pg lim = Inr r) \<longleftrightarrow>
             (\<exists>j. json res = Some (Val j) \<and> readable j))) \<and>
         (ok res \<and> json res = None \<longrightarrow> fetchArtworksPage fetch pg lim = Inl SyntaxError) \<and>
         (ok res \<and> (json res = Some Null \<or> json res = Some Undefined \<or>
                    (\<exists>j. json res = Some (Val j) \<and> \<not> readable j)) \<longrightarrow>
            fetchArtworksPage fetch pg lim = Inl TypeError)"
proof (cases "ok res")
  case False
  with assms show ?thesis by (simp add: fetchArtworksPage_def)
next
  case True
  have syn: "json res = None \<Longrightarrow> fetchArtworksPage fetch pg lim = Inl SyntaxError"
    using assms True by (simp add: fetchArtworksPage_def)
  have tyerr: "json res = Some Null \<or> json res = Some Undefined \<or>
      (\<exists>j. json res = Some (Val j) \<and> \<not> readable j) \<Longrightarrow>
      fetchArtworksPage fetch pg lim = Inl TypeError"
    using fetchArtworksPage_TypeError [of fetch pg lim res] assms True by blast
  have ret: "json res = Some (Val j) \<Longrightarrow> readable j \<Longrightarrow>
      \<exists>r. fetchArtworksPage fetch pg lim = Inr r" for j
    using readable_items [of j] fetchArtworksPage_ok [of fetch pg lim res j] assms True
    by metis
  have shape: "json res = None \<or> json res = Some Null \<or> json res = Some Undefined \<or>
      (\<exists>j. json res = Some (Val j))"
    by (cases "json res") (auto intro: jsopt.exhaust)
  have "(\<exists>r. fetchArtworksPage fetch pg lim = Inr r) \<longleftrightarrow>
      (\<exists>j. json res = Some (Val j) \<and> readable j)"
  proof
    assume "\<exists>r. fetchArtworksPage fetch pg lim = Inr r"
    then obtain r where r: "fetchArtworksPage fetch pg lim = Inr r" ..
    show "\<exists>j. json res = Some (Val j) \<and> readable j"
    proof (rule ccontr)
      assume n: "\<not> (\<exists>j. json res = Some (Val j) \<and> readable j)"
      from shape consider "json res = None"
        | "json res = Some Null \<or> json res = Some Undefined \<or>
           (\<exists>j. json res = Some (Val j) \<and> \<not> readable j)"
        using n by metis
      then show False
      proof cases
        case 1
        with syn r show False by simp
      next
        case 2
        with tyerr r show False by simp
      qed
    qed
  next
    assume "\<exists>j. json res = Some (Val j) \<and> readable j"
    with ret show "\<exists>r. fetchArtworksPage fetch pg lim = Inr r" by blast
  qed
  moreover have "fetchArtworksPage fetch pg lim \<noteq> Inl (Error ''Failed to fetch artworks'')"
  proof -
    from shape consider "json res = None"
      | "json res = Some Null \<or> json res = Some Undefined \<or>
         (\<exists>j. json res = Some (Val j) \<and> \<not> readable j)"
      | j where "json res = Some (Val j)" "readable j"
      by metis
    then show ?thesis
    proof cases
      case 1
      with syn show ?thesis by simp
    next
      case 2
      with tyerr show ?thesis by simp
    next
      case 3
      with ret obtain r where "fetchArtworksPage fetch pg lim = Inr r" by blast
      then show ?thesis by simp
    qed
  qed
  ultimately show ?thesis
    using True syn tyerr by blast
qed

theorem fetchArtworksPage_raises_witness:
  "server_error (artworks_url 1 10) = Some server_error_response \<and>
   \<not> ok server_error_response \<and>
   fetchArtworksPage server_error 1 10 = Inl (Error ''Failed to fetch artworks'') \<and>
   answer null_body (artworks_url 1 10) = Some null_body \<and>
   ok null_body \<and> json null_body = Some Null \<and>
   fetchArtworksPage (answer null_body) 1 10 = Inl TypeError \<and>
   \<not> readable null_element_body \<and>
   fetchArtworksPage (answer \<lparr>ok = True, json = Some (Val null_element_body)\<rparr>) 1 10 =
     Inl TypeError \<and>
   \<not> readable object_data_body \<and>
   fetchArtworksPage (answer \<lparr>ok = True, json = Some (Val object_data_body)\<rparr>) 1 10 =
     Inl TypeError \<and>
   readable two_records_body \<and>
   fetchArtworksPage two_records 1 10 \<noteq> Inl (Error ''Failed to fetch artworks'')"
proof -
  let ?e = "\<lparr>ok = True, json = Some (Val null_element_body)\<rparr>"
  let ?o = "\<lparr>ok = True, json = Some (Val object_data_body)\<rparr>"
  have s: "server_error (artworks_url 1 10) = Some server_error_response"
      "\<not> ok server_error_response"
    by (simp_all add: server_error_def server_error_response_def)
  have n: "answer null_body (artworks_url 1 10) = Some null_body" "ok null_body"
      "json null_body = Some Null"
    by (simp_all add: answer_def null_body_def)
  have e: "answer ?e (artworks_url 1 10) = Some ?e" "ok ?e"
      "json ?e = Some (Val null_element_body)" "\<not> readable null_element_body"
    by (simp_all add: answer_def null_element_body_def readable_def)
  have o: "answer ?o (artworks_url 1 10) = Some ?o" "ok ?o"
      "json ?o = Some (Val object_data_body)" "\<not> readable object_data_body"
    by (simp_all add: answer_def object_data_body_def readable_def)
  have t: "two_records (artworks_url 1 10) = Some two_records_response"
      "ok two_records_response" "readable two_records_body"
    by (simp_all add: two_records_def two_records_response_def two_records_body_def
          readable_def)
  have "fetchArtworksPage server_error 1 10 = Inl (Error ''Failed to fetch artworks'')"
    using fetchArtworksPage_raises [of server_error 1 10 server_error_response] s by blast
  moreover have "fetchArtworksPage (answer null_body) 1 10 = Inl TypeError"
    using fetchArtworksPage_raises [of "answer null_body" 1 10 null_body] n by blast
  moreover have "fetchArtworksPage (answer ?e) 1 10 = Inl TypeError"
    using fetchArtworksPage_raises [of "answer ?e" 1 10 ?e] e by blast
  moreover have "fetchArtworksPage (answer ?o) 1 10 = Inl TypeError"
    using fetchArtworksPage_raises [of "answer ?o" 1 10 ?o] o by blast
  moreover have "fetchArtworksPage two_records 1 10 \<noteq> Inl (Error ''Failed to fetch artworks'')"
    using fetchArtworksPage_raises [of two_records 1 10 two_records_response] t by blast
  ultimately show ?thesis
    using s n e o t by blast
qed

text \<open>
  The claim as written (every ok response gives a result) fails for an ok response
  whose body is not JSON.
\<close>

theorem ok_response_not_json_counterexample:
  "gateway (artworks_url 1 10) = Some html_body \<and> ok html_body \<and>
   fetchArtworksPage gateway 1 10 = Inl SyntaxError"
  by (simp add: fetchArtworksPage_def gateway_def html_body_def)

section \<open>Failed and stale fetches\<close>

text \<open>
  Claim C6, amended. When the fetch of the current effect run fails, the error is
  logged to the console and the displayed page is cleared: \<open>items\<close> is empty,
  \<open>totalRecords\<close> is 0 and \<open>pageSelection\<close> is \<open>null\<close>; \<open>loading\<close> is
  reset. No request is started again, and \<open>page\<close>, \<open>rowsPerPage\<close>, the selection
  map and the sidebar flag stay as they are.
\<close>

theorem failed_fetch_logs_and_clears:
  assumes "n < length (tasks st)" and "\<not> settled (tasks st ! n)" and "mounted (tasks st ! n)"
    and "fetchArtworksPage fetch (req_page (tasks st ! n)) (req_limit (tasks st ! n)) = Inl err"
  shows "console (settle fetch n st) = console st @ [err] \<and>
         items (settle fetch n st) = [] \<and>
         totalRecords (settle fetch n st) = 0 \<and>
         pageSelection (settle fetch n st) = None \<and>
         loading (settle fetch n st) = False \<and>
         page (settle fetch n st) = page st \<and>
         rowsPerPage (settle fetch n st) = rowsPerPage st \<and>
         selectedMap (settle fetch n st) = selectedMap st \<and>
         visibleSidebar (settle fetch n st) = visibleSidebar st \<and>
         length (tasks (settle fetch n st)) = length (tasks st)"
  using assms(3) by (simp add: settle_rejected [OF assms(1,2,4)])

theorem failed_fetch_witness:
  "1 < length (tasks (run load_then_next)) \<and>
   \<not> settled (tasks (run load_then_next) ! 1) \<and>
   mounted (tasks (run load_then_next) ! 1) \<and>
   fetchArtworksPage offline (req_page (tasks (run load_then_next) ! 1))
     (req_limit (tasks (run load_then_next) ! 1)) = Inl TypeError \<and>
   console (settle offline 1 (run load_then_next)) = [TypeError] \<and>
   items (settle offline 1 (run load_then_next)) = [] \<and>
   \<not> loading (settle offline 1 (run load_then_next)) \<and>
   page (settle offline 1 (run load_then_next)) = 2 \<and>
   length (tasks (settle offline 1 (run load_then_next))) = 2"
proof -
  have h: "1 < length (tasks (run load_then_next))"
      "\<not> settled (tasks (run load_then_next) ! 1)"
      "mounted (tasks (run load_then_next) ! 1)"
      "fetchArtworksPage offline (req_page (tasks (run load_then_next) ! 1))
         (req_limit (tasks (run load_then_next) ! 1)) = Inl TypeError"
    by code_simp+
  have i: "console (run load_then_next) = []" "page (run load_then_next) = 2"
      "length (tasks (run load_then_next)) = 2"
    by code_simp+
  show ?thesis
    using failed_fetch_logs_and_clears [OF h] h i by simp
qed

text \<open>
  The claim as written (the handler only logs) fails: after the first page has been
  shown, a failed fetch of the next page empties the table.
\<close>

theorem failed_fetch_clears_page_counterexample:
  "items (run load_then_next) = [sunday, nighthawks] \<and>
   totalRecords (run load_then_next) = 2 \<and>
   fetchArtworksPage offline 2 10 = Inl TypeError \<and>
   items (step (run load_then_next) (Settle offline 1)) = [] \<and>
   totalRecords (step (run load_then_next) (Settle offline 1)) = 0 \<and>
   console (step (run load_then_next) (Settle offline 1)) = [TypeError]"
  by code_simp

text \<open>
  Claim C7. The \<open>.catch\<close> handler does not test \<open>mounted\<close>, as \<open>.then\<close> and
  \<open>.finally\<close> do. The user opens page 2 while the request for page 1 is pending;
  page 2 arrives and is shown; then the request for page 1, whose cleanup has run,
  gets a response that is not ok, and the rows of page 2 are cleared.
\<close>

theorem stale_failure_clears_current_page:
  "\<not> mounted (tasks (run open_page_two) ! 0) \<and>
   \<not> settled (tasks (run open_page_two) ! 0) \<and>
   page (run open_page_two) = 2 \<and>
   req_page (tasks (run open_page_two) ! 0) = 1 \<and>
   items (run open_page_two) = [sunday, nighthawks] \<and>
   totalRecords (run open_page_two) = 2 \<and>
   pageSelection (run open_page_two) = Some [sunday] \<and>
   items (step (run open_page_two) (Settle server_error 0)) = [] \<and>
   totalRecords (step (run open_page_two) (Settle server_error 0)) = 0 \<and>
   pageSelection (step (run open_page_two) (Settle server_error 0)) = None"
  by code_simp

section \<open>The side panel\<close>

lemma read_nat_snoc: "read_nat (cs @ [c]) = 10 * read_nat cs + (of_char c - 48)"
  by (simp add: read_nat_def)

lemma digit_value: "n < 10 \<Longrightarrow> of_char (''0123456789'' ! n) - 48 = n"
proof -
  assume "n < 10"
  then have "n \<in> {0, 1, 2, 3, 4, 5, 6, 7, 8, 9}" by auto
  then show ?thesis by auto
qed

lemma read_show_nat: "read_nat (show_nat n) = n"
proof (induction n rule: show_nat.induct)
  case (1 n)
  show ?case
  proof (cases "n < 10")
    case True
    then show ?thesis
      using digit_value [of n] by (subst show_nat.simps) (simp add: read_nat_def)
  next
    case False
    have "read_nat (show_nat n) =
        10 * read_nat (show_nat (n div 10)) + (of_char (''0123456789'' ! (n mod 10)) - 48)"
      using False by (subst show_nat.simps) (simp del: show_nat.simps add: read_nat_snoc)
    also have "\<dots> = 10 * (n div 10) + n mod 10"
      using "1.IH" False digit_value [of "n mod 10"] by (simp del: show_nat.simps)
    finally show ?thesis by simp
  qed
qed

text \<open>
  Claim C8. The side panel lists \<open>Object.values\<close> of the selection map, one entry
  for each key (with the key's identifier when the map is keyed by the records' own
  identifiers); the button and the heading show the number of keys in decimal; the
  message \<open>No items selected.\<close> is shown exactly when the map is empty.
\<close>

theorem sidebar_shows_selection_map:
  "selected_items (render st) = map render_item (Object_values (selectedMap st)) \<and>
   length (selected_items (render st)) = length (Object_keys (selectedMap st)) \<and>
   (keyed (selectedMap st) \<longrightarrow>
      map item_key (selected_items (render st)) = Object_keys (selectedMap st)) \<and>
   (js_object (selectedMap st) \<longrightarrow>
      length (Object_keys (selectedMap st)) = card (dom (get_prop (selectedMap st)))) \<and>
   button_label (render st) =
     ''Selected: '' @ show_nat (length (Object_keys (selectedMap st))) \<and>
   heading (render st) =
     ''Selected Artworks ('' @ show_nat (length (Object_keys (selectedMap st))) @ '')'' \<and>
   read_nat (drop 10 (button_label (render st))) = length (Object_keys (selectedMap st)) \<and>
   read_nat (butlast (drop 19 (heading (render st)))) = length (Object_keys (selectedMap st)) \<and>
   (no_items_selected (render st) \<longleftrightarrow> selectedMap st = [])"
proof -
  have "keyed m \<Longrightarrow> map (item_key \<circ> render_item \<circ> snd) m = map fst m" for m
    by (induction m) (auto simp: keyed_def render_item_def)
  then have "selected_items (render st) = map render_item (Object_values (selectedMap st)) \<and>
   length (selected_items (render st)) = length (Object_keys (selectedMap st)) \<and>
   (keyed (selectedMap st) \<longrightarrow>
      map item_key (selected_items (render st)) = Object_keys (selectedMap st)) \<and>
   button_label (render st) =
     ''Selected: '' @ show_nat (length (Object_keys (selectedMap st))) \<and>
   heading (render st) =
     ''Selected Artworks ('' @ show_nat (length (Object_keys (selectedMap st))) @ '')'' \<and>
   read_nat (drop 10 (button_label (render st))) = length (Object_keys (selectedMap st)) \<and>
   read_nat (butlast (drop 19 (heading (render st)))) = length (Object_keys (selectedMap st)) \<and>
   (no_items_selected (render st) \<longleftrightarrow> selectedMap st = [])"
    by (simp add: render_def Object_values_def Object_keys_def show_int_def read_show_nat
          del: show_nat.simps)
  then show ?thesis
    using js_object_count [of "selectedMap st"] by blast
qed

theorem sidebar_witness:
  "keyed (selectedMap two_rows) \<and>
   js_object (selectedMap two_rows) \<and>
   map item_key (selected_items (render two_rows)) = [27992, 28560] \<and>
   card (dom (get_prop (selectedMap two_rows))) = 2 \<and>
   button_label (render two_rows) = ''Selected: 2'' \<and>
   heading (render two_rows) = ''Selected Artworks (2)'' \<and>
   \<not> no_items_selected (render two_rows)"
proof -
  note t = sidebar_shows_selection_map [of two_rows]
  have h: "keyed (selectedMap two_rows)"
    by code_simp
  have o: "js_object (selectedMap two_rows)"
    by code_simp
  have k: "Object_keys (selectedMap two_rows) = [27992, 28560]"
    by code_simp
  have s: "show_nat (length (Object_keys (selectedMap two_rows))) = ''2''"
    by code_simp
  have n: "selectedMap two_rows \<noteq> []"
    by code_simp
  have "map item_key (selected_items (render two_rows)) = [27992, 28560]"
    using t h k by metis
  moreover have "card (dom (get_prop (selectedMap two_rows))) = 2"
    using t o k by simp
  moreover have "button_label (render two_rows) = ''Selected: 2''"
    using t unfolding s by simp
  moreover have "heading (render two_rows) = ''Selected Artworks (2)''"
    using t unfolding s by simp
  moreover have "\<not> no_items_selected (render two_rows)"
    using t n by blast
  ultimately show ?thesis
    using h o by blast
qed

section \<open>Persistence of the selection\<close>

lemma persist_effect_stores:
  "localStorage (persist_effect JSON_stringify b) STORAGE_KEY =
     Some (JSON_stringify (selectedMap (component b)))"
  by (simp add: persist_effect_def)

lemma mount_without_storage:
  "storage STORAGE_KEY = None \<Longrightarrow>
   component (mount JSON_parse JSON_stringify storage) = mounted_state"
  by (simp add: mount_def mount_effects_def first_render_def load_effect_def
        persist_effect_def fetch_effect_def apply_updates_def mounted_state_def)

lemma mount_restores_selection:
  assumes "storage STORAGE_KEY = Some (JSON_stringify m)"
    and "JSON_stringify m \<noteq> []" and "JSON_parse (JSON_stringify m) = Some m"
  shows "selectedMap (component (mount JSON_parse JSON_stringify storage)) = m \<and>
         localStorage (mount JSON_parse JSON_stringify storage) STORAGE_KEY =
           Some (JSON_stringify m)"
  using assms
  by (simp add: mount_def mount_effects_def first_render_def load_effect_def
        persist_effect_def fetch_effect_def apply_updates_def run_fetch_effect_def
        initial_state_def)

lemma strict_mount_resets_selection:
  assumes "JSON_stringify [] \<noteq> []" and "JSON_parse (JSON_stringify []) = Some []"
  shows "selectedMap (component (strict_mount JSON_parse JSON_stringify storage)) = [] \<and>
         localStorage (strict_mount JSON_parse JSON_stringify storage) STORAGE_KEY =
           Some (JSON_stringify [])"
  using assms
  by (simp add: strict_mount_def mount_effects_def first_render_def load_effect_def
        persist_effect_def fetch_effect_def apply_updates_def run_fetch_effect_def
        initial_state_def split: option.splits)

lemma engine_round_trip:
  "engine_stringify [] = ''{}''"
  "engine_parse (engine_stringify []) = Some []"
  "engine_stringify one_selected \<noteq> []"
  "engine_parse (engine_stringify one_selected) = Some one_selected"
  by code_simp+

text \<open>
  Claim C4. The blob that the persist effect has stored parses back to the selection
  map, and one run of the mount effects restores it. In the development build the
  effects of the first render run twice: the persist effect has then overwritten the
  blob with that of the empty map before the second load reads it, and the selection
  of the earlier visit is lost, in the state and in \<open>localStorage\<close>.
\<close>

theorem strict_mount_loses_stored_selection:
  "earlier_visit STORAGE_KEY = Some (engine_stringify one_selected) \<and>
   engine_parse (engine_stringify one_selected) = Some one_selected \<and>
   one_selected \<noteq> [] \<and>
   selectedMap (component (mount engine_parse engine_stringify earlier_visit)) = one_selected \<and>
   localStorage (mount engine_parse engine_stringify earlier_visit) STORAGE_KEY =
     Some (engine_stringify one_selected) \<and>
   selectedMap (component (strict_mount engine_parse engine_stringify earlier_visit)) = [] \<and>
   localStorage (strict_mount engine_parse engine_stringify earlier_visit) STORAGE_KEY =
     Some ''{}''"
proof -
  have s: "earlier_visit STORAGE_KEY = Some (engine_stringify one_selected)"
    by (simp add: earlier_visit_def)
  have n: "one_selected \<noteq> []"
    by (simp add: one_selected_def)
  have e: "engine_stringify [] \<noteq> []"
    by (simp add: engine_round_trip(1))
  show ?thesis
    using mount_restores_selection
            [of earlier_visit engine_stringify one_selected engine_parse,
             OF s engine_round_trip(3,4)]
          strict_mount_resets_selection
            [of engine_stringify engine_parse earlier_visit, OF e engine_round_trip(2)]
          s n engine_round_trip(1,4)
    by simp
qed

end
